theory Spec2Isabelle
  imports Main
begin

section \<open>Untyped payload values and the library functions the code calls\<close>

text \<open>
  The payloads the program decodes are Go values of type \<open>interface{}\<close>. After
  \<open>json.Unmarshal\<close> their dynamic type is one of nil, bool, float64, string,
  \<open>[]interface{}\<close> and \<open>map[string]interface{}\<close>; the coercion helpers also test for
  the dynamic type int. A 64-bit float is kept abstract (the type parameter \<open>'f\<close>): no
  claim depends on its arithmetic, only on where such a value comes from.
\<close>

datatype 'f val =
    VNil
  | VBool bool
  | VFloat64 'f
  | VInt int
  | VString string
  | VArray "'f val list"
  | VObject "(string \<times> 'f val) list"

text \<open>
  The functions of the Go library whose result on a float cannot be written down without
  a model of IEEE arithmetic are parameters: \<open>strconv.ParseFloat(s, 64)\<close> (\<open>None\<close>
  is its error), the conversions \<open>float64(n)\<close> and \<open>int(x)\<close>, the literal \<open>0\<close> of
  type float64, and \<open>fmt.Sprintf("%v", v)\<close>.
\<close>

record 'f golib =
  ParseFloat :: "string \<Rightarrow> 'f option"
  float64_of_int :: "int \<Rightarrow> 'f"
  int_of_float64 :: "'f \<Rightarrow> int"
  float64_zero :: "'f"
  Sprintf_v :: "'f val \<Rightarrow> string"

text \<open>Indexing a Go map: an absent key reads as the nil interface value.\<close>

definition index_map :: "(string \<times> 'f val) list \<Rightarrow> string \<Rightarrow> 'f val" where
  "index_map m k = (case map_of m k of None \<Rightarrow> VNil | Some v \<Rightarrow> v)"

text \<open>
  A type assertion in its two forms. The comma-ok form \<open>s, ok := v.(string)\<close> never
  fails, the bare form \<open>v.(string)\<close> panics when the dynamic type is another one (nil
  included).
\<close>

datatype panic = InterfaceConversion

definition ok_float64 :: "'f val \<Rightarrow> 'f option" where
  "ok_float64 v = (case v of VFloat64 x \<Rightarrow> Some x | _ \<Rightarrow> None)"

definition ok_int :: "'f val \<Rightarrow> int option" where
  "ok_int v = (case v of VInt n \<Rightarrow> Some n | _ \<Rightarrow> None)"

definition ok_string :: "'f val \<Rightarrow> string option" where
  "ok_string v = (case v of VString s \<Rightarrow> Some s | _ \<Rightarrow> None)"

definition ok_bool :: "'f val \<Rightarrow> bool option" where
  "ok_bool v = (case v of VBool b \<Rightarrow> Some b | _ \<Rightarrow> None)"

definition assert_string :: "'f val \<Rightarrow> panic + string" where
  "assert_string v = (case v of VString s \<Rightarrow> Inr s | _ \<Rightarrow> Inl InterfaceConversion)"

definition assert_map :: "'f val \<Rightarrow> panic + (string \<times> 'f val) list" where
  "assert_map v = (case v of VObject m \<Rightarrow> Inr m | _ \<Rightarrow> Inl InterfaceConversion)"

definition assert_slice :: "'f val \<Rightarrow> panic + 'f val list" where
  "assert_slice v = (case v of VArray xs \<Rightarrow> Inr xs | _ \<Rightarrow> Inl InterfaceConversion)"

subsection \<open>strconv\<close>

text \<open>
  \<open>strconv.ParseInt(s, 10, 64)\<close> and \<open>strconv.Atoi(s)\<close> (the same function where int
  has 64 bits): an optional sign, then at least one decimal digit and nothing else, and
  the value must fit a signed 64-bit integer. \<open>None\<close> is the error.
\<close>

definition digit_of :: "char \<Rightarrow> nat option" where
  "digit_of c =
     (let n = of_char c :: nat in if 48 \<le> n \<and> n \<le> 57 then Some (n - 48) else None)"

fun parse_digits :: "nat \<Rightarrow> string \<Rightarrow> nat option" where
  "parse_digits acc [] = Some acc"
| "parse_digits acc (c # cs) =
     (case digit_of c of None \<Rightarrow> None | Some d \<Rightarrow> parse_digits (acc * 10 + d) cs)"

definition ParseUint :: "string \<Rightarrow> nat option" where
  "ParseUint s = (if s = [] then None else parse_digits 0 s)"

definition ParseInt :: "string \<Rightarrow> int option" where
  "ParseInt s =
     (if s = [] then None
      else let neg = (hd s = CHR ''-'');
               s' = (if hd s = CHR ''+'' \<or> hd s = CHR ''-'' then tl s else s)
           in case ParseUint s' of
                None \<Rightarrow> None
              | Some un \<Rightarrow>
                  if \<not> neg \<and> un \<ge> 2 ^ 63 then None
                  else if neg \<and> un > 2 ^ 63 then None
                  else Some (if neg then - int un else int un))"

definition Atoi :: "string \<Rightarrow> int option" where
  "Atoi s = ParseInt s"

definition ParseBool :: "string \<Rightarrow> bool option" where
  "ParseBool str =
     (if str \<in> {''1'', ''t'', ''T'', ''true'', ''TRUE'', ''True''} then Some True
      else if str \<in> {''0'', ''f'', ''F'', ''false'', ''FALSE'', ''False''} then Some False
      else None)"

section \<open>Tolerant field extraction (funds package)\<close>

definition getString :: "'f golib \<Rightarrow> 'f val \<Rightarrow> string" where
  "getString L v =
     (if v = VNil then []
      else case ok_string v of Some str \<Rightarrow> str | None \<Rightarrow> Sprintf_v L v)"

definition getInt :: "'f golib \<Rightarrow> 'f val \<Rightarrow> int" where
  "getInt L v =
     (if v = VNil then 0
      else case ok_float64 v of
        Some num \<Rightarrow> int_of_float64 L num
      | None \<Rightarrow>
         (case ok_int v of
            Some num \<Rightarrow> num
          | None \<Rightarrow>
             (case ok_string v of
                Some str \<Rightarrow> (case Atoi str of Some i \<Rightarrow> i | None \<Rightarrow> 0)
              | None \<Rightarrow> 0)))"

definition getFloat64 :: "'f golib \<Rightarrow> 'f val \<Rightarrow> 'f" where
  "getFloat64 L v =
     (if v = VNil then float64_zero L
      else case ok_float64 v of
        Some num \<Rightarrow> num
      | None \<Rightarrow>
         (case ok_int v of
            Some num \<Rightarrow> float64_of_int L num
          | None \<Rightarrow>
             (case ok_string v of
                Some str \<Rightarrow> (case ParseFloat L str of Some f \<Rightarrow> f | None \<Rightarrow> float64_zero L)
              | None \<Rightarrow> float64_zero L)))"

definition getBool :: "'f val \<Rightarrow> bool" where
  "getBool v =
     (if v = VNil then False
      else case ok_bool v of
        Some b \<Rightarrow> b
      | None \<Rightarrow>
         (case ok_string v of
            Some str \<Rightarrow> (case ParseBool str of Some b \<Rightarrow> b | None \<Rightarrow> False)
          | None \<Rightarrow> False))"

section \<open>Logging, errors and the network\<close>

text \<open>
  A call of the logger is recorded as its level and message (the structured fields are
  left out); the most recent call is first.
\<close>

datatype level = LevelDebug | LevelInfo | LevelError

text \<open>The error values the code builds with \<open>fmt.Errorf\<close>, one constructor per site.\<close>

datatype error =
    MarshalRequestFailed
  | CreateRequestFailed
  | SendRequestFailed
  | ReadBodyFailed
  | HTTPError int
  | UnmarshalResponseFailed
  | LoginFailed int string
  | QueryCoinsFailed int string
  | ReLoginFailed error
  | ValidateTokenFailed error
  | GetTradeInflowFailed error
  | InvalidResponseCode int string
  | MarshalDataFailed
  | UnmarshalDataFailed
  | EmptyData
  | QueryVSTokenIDsFailed
  | StorageFailed

text \<open>
  What one HTTP exchange can come to, in the order in which the code meets it: the request
  body cannot be marshalled, the request cannot be built, the transport fails, the body
  cannot be read, or a reply arrives with its status code and the result of
  \<open>json.Unmarshal\<close> on its body (\<open>None\<close> for a body that does not decode into the
  envelope).
\<close>

datatype 'a exchange =
    MarshalFails
  | NewRequestFails
  | SendFails
  | ReadFails
  | Reply int "'a option"

record 'd Response =
  Code :: int
  Data :: 'd
  Msg :: string
  ReqID :: string
  UserRole :: string

record LoginData =
  AccountToken :: string
  RefreshToken :: string

text \<open>
  \<open>TokenPair\<close> has the two fields of \<open>LoginData\<close> and the two expiry timestamps. They
  are Go int64 values that the code only compares, so they are integers here.
\<close>

record TokenPair = LoginData +
  ExpiresAt :: int
  RefreshExpiresAt :: int

record 'f VsCoinInfo =
  VSTokenID :: int
  Name :: string
  Symbol :: string
  MarketCap :: 'f

record 'f CoinTradeInflowDto =
  Symbol_dto :: string
  TimeParticleEnum :: int
  Time_dto :: string
  Stop :: bool
  StopTradeInflow :: 'f
  StopTradeAmount :: 'f
  StopTradeInflowChange :: 'f
  StopTradeAmountChange :: 'f
  Contract :: bool
  ContractTradeInflow :: 'f
  ContractTradeAmount :: 'f
  ContractTradeInflowChange :: 'f
  ContractTradeAmountChange :: 'f
  StopTradeIn :: 'f
  StopTradeOut :: 'f
  ContractTradeIn :: 'f
  ContractTradeOut :: 'f

text \<open>
  The world the two loops run in. The environment's part is read only: the clock
  (\<open>time.Now().Unix()\<close>) and what each endpoint answers to its n-th call. The program's
  part: how many times \<open>Login\<close> ran, the requests sent (most recent first), the two
  tables and the log.
\<close>

record 'f world =
  unix_now :: int
  login_net :: "nat \<Rightarrow> LoginData Response exchange"
  coin_net :: "nat \<Rightarrow> string \<Rightarrow> 'f val Response exchange"
  flow_net :: "nat \<Rightarrow> string \<Rightarrow> string \<Rightarrow> 'f val Response exchange"
  logins :: nat
  coin_queries :: "string list"
  flow_requests :: "(string \<times> string) list"
  coins :: "'f VsCoinInfo list"
  flows :: "'f CoinTradeInflowDto list"
  log :: "(level \<times> string) list"

definition logmsg :: "level \<Rightarrow> string \<Rightarrow> 'f world \<Rightarrow> 'f world" where
  "logmsg lvl msg w = w\<lparr>log := (lvl, msg) # log w\<rparr>"

section \<open>Credentials and tokens (auth package)\<close>

definition NewTokenPair :: "string \<Rightarrow> string \<Rightarrow> TokenPair" where
  "NewTokenPair accountToken refreshToken =
     \<lparr>AccountToken = accountToken, RefreshToken = refreshToken,
      ExpiresAt = 0, RefreshExpiresAt = 0\<rparr>"

text \<open>\<open>IsValid\<close> and \<open>IsRefreshValid\<close>; the first argument is the clock they read.\<close>

definition IsValid :: "int \<Rightarrow> TokenPair \<Rightarrow> bool" where
  "IsValid now tp = (if ExpiresAt tp = 0 then True else now < ExpiresAt tp)"

definition IsRefreshValid :: "int \<Rightarrow> TokenPair \<Rightarrow> bool" where
  "IsRefreshValid now tp = (if RefreshExpiresAt tp = 0 then True else now < RefreshExpiresAt tp)"

definition Login :: "'f world \<Rightarrow> (error + LoginData Response) \<times> 'f world" where
  "Login w =
     (let w1 = logmsg LevelDebug ''Starting login process'' w;
          r = login_net w1 (logins w1);
          w2 = w1\<lparr>logins := Suc (logins w1)\<rparr>;
          w3 = logmsg LevelDebug ''Sending login request'' w2
      in case r of
           MarshalFails \<Rightarrow>
             (Inl MarshalRequestFailed, logmsg LevelError ''Failed to marshal login request'' w2)
         | NewRequestFails \<Rightarrow>
             (Inl CreateRequestFailed, logmsg LevelError ''Failed to create login request'' w2)
         | SendFails \<Rightarrow>
             (Inl SendRequestFailed, logmsg LevelError ''Failed to send login request'' w3)
         | ReadFails \<Rightarrow>
             (Inl ReadBodyFailed, logmsg LevelError ''Failed to read login response'' w3)
         | Reply status body \<Rightarrow>
             if status \<noteq> 200
             then (Inl (HTTPError status), logmsg LevelError ''Login HTTP error'' w3)
             else (case body of
                     None \<Rightarrow>
                       (Inl UnmarshalResponseFailed,
                        logmsg LevelError ''Failed to unmarshal login response'' w3)
                   | Some loginResp \<Rightarrow>
                       if Code loginResp \<noteq> 200
                       then (Inl (LoginFailed (Code loginResp) (Msg loginResp)),
                             logmsg LevelError ''Login failed'' w3)
                       else (Inr loginResp, logmsg LevelInfo ''Login successful'' w3)))"

definition GetTokens :: "'f world \<Rightarrow> (error + TokenPair) \<times> 'f world" where
  "GetTokens w =
     (case Login w of
        (Inl err, w') \<Rightarrow> (Inl err, w')
      | (Inr resp, w') \<Rightarrow>
          (Inr (NewTokenPair (AccountToken (Data resp)) (RefreshToken (Data resp))), w'))"

definition extractExpiryFromJWT :: "string \<Rightarrow> int" where
  "extractExpiryFromJWT token = 0"

definition GetTokensWithExpiry :: "'f world \<Rightarrow> (error + TokenPair) \<times> 'f world" where
  "GetTokensWithExpiry w =
     (case Login w of
        (Inl err, w') \<Rightarrow> (Inl err, w')
      | (Inr resp, w') \<Rightarrow>
          (let tokenPair = NewTokenPair (AccountToken (Data resp)) (RefreshToken (Data resp));
               exp = extractExpiryFromJWT (AccountToken (Data resp));
               tokenPair = (if exp > 0 then tokenPair\<lparr>ExpiresAt := exp\<rparr> else tokenPair);
               refreshExp = extractExpiryFromJWT (RefreshToken (Data resp));
               tokenPair = (if refreshExp > 0 then tokenPair\<lparr>RefreshExpiresAt := refreshExp\<rparr>
                            else tokenPair)
           in (Inr tokenPair, w')))"

text \<open>
  \<open>ValidateAndRefreshToken\<close> receives the access token as a string and builds the pair
  it tests from that string alone.
\<close>

definition ValidateAndRefreshToken :: "'f world \<Rightarrow> string \<Rightarrow> (error + string) \<times> 'f world" where
  "ValidateAndRefreshToken w accessToken =
     (let tokenPair = \<lparr>AccountToken = accessToken, RefreshToken = [],
                        ExpiresAt = 0, RefreshExpiresAt = 0\<rparr>
      in if IsValid (unix_now w) tokenPair
         then (Inr accessToken, logmsg LevelDebug ''Token is still valid'' w)
         else (case GetTokens (logmsg LevelInfo ''Token expired, attempting re-login'' w) of
                 (Inl err, w') \<Rightarrow> (Inl (ReLoginFailed err), w')
               | (Inr newTokenPair, w') \<Rightarrow>
                   (Inr (AccountToken newTokenPair),
                    logmsg LevelInfo ''Successfully re-logged in'' w')))"

section \<open>Clock alignment (utils package)\<close>

text \<open>
  A \<open>time.Time\<close> is an instant: here the number of nanoseconds since midnight of a day 0,
  as the wall clock of the process's location shows it. The location is taken to have a
  fixed offset, so that every day has 24 hours. \<open>Minute\<close> and \<open>Hour\<close> are the
  methods of that name, \<open>DayOf\<close> stands for the triple of \<open>Year\<close>, \<open>Month\<close> and
  \<open>Day\<close>, and \<open>Date\<close> is \<open>time.Date\<close> on fields that are in range.
\<close>

type_synonym Time = int
type_synonym Duration = int

definition time_Second :: Duration where "time_Second = 1000000000"
definition time_Minute :: Duration where "time_Minute = 60 * time_Second"
definition time_Hour :: Duration where "time_Hour = 60 * time_Minute"

definition Minute :: "Time \<Rightarrow> int" where
  "Minute t = (t div time_Minute) mod 60"

definition Hour :: "Time \<Rightarrow> int" where
  "Hour t = (t div time_Hour) mod 24"

definition DayOf :: "Time \<Rightarrow> int" where
  "DayOf t = t div (24 * time_Hour)"

definition Date :: "int \<Rightarrow> int \<Rightarrow> int \<Rightarrow> int \<Rightarrow> int \<Rightarrow> Time" where
  "Date day hour minute sec nsec =
     day * (24 * time_Hour) + hour * time_Hour + minute * time_Minute + sec * time_Second + nsec"

text \<open>
  \<open>WaitForNext5MinuteMark\<close> when \<open>time.Now()\<close> returns \<open>now\<close>: the value of
  \<open>nextTime\<close> after \<open>time.Date\<close> (the naive mark), its value after the test
  \<open>nextTime.Before(now)\<close> (the mark), and the pair of the mark and the delay the function
  sleeps for. Likewise for the 4-hour mark. The minute and the hour are not negative, so
  Go's division that truncates and \<open>div\<close> agree on them.
\<close>

definition naive5MinuteMark :: "Time \<Rightarrow> Time" where
  "naive5MinuteMark now =
     (let nextMinute = ((Minute now div 5) + 1) * 5;
          nextMinute = (if nextMinute \<ge> 60 then 0 else nextMinute)
      in Date (DayOf now) (Hour now) nextMinute 0 0)"

definition next5MinuteMark :: "Time \<Rightarrow> Time" where
  "next5MinuteMark now =
     (let nextTime = naive5MinuteMark now
      in if nextTime < now then nextTime + 1 * time_Hour else nextTime)"

definition WaitForNext5MinuteMark :: "Time \<Rightarrow> Time \<times> Duration" where
  "WaitForNext5MinuteMark now =
     (let nextTime = next5MinuteMark now; delay = nextTime - now in (nextTime, delay))"

definition naive4HourMark :: "Time \<Rightarrow> Time" where
  "naive4HourMark now =
     (let nextHour = ((Hour now div 4) + 1) * 4;
          nextHour = (if nextHour \<ge> 24 then 0 else nextHour)
      in Date (DayOf now) nextHour 0 0 0)"

definition next4HourMark :: "Time \<Rightarrow> Time" where
  "next4HourMark now =
     (let nextTime = naive4HourMark now
      in if nextTime < now then nextTime + 24 * time_Hour else nextTime)"

definition WaitForNext4HourMark :: "Time \<Rightarrow> Time \<times> Duration" where
  "WaitForNext4HourMark now =
     (let nextTime = next4HourMark now; delay = nextTime - now in (nextTime, delay))"

section \<open>Storage\<close>

text \<open>
  Modelled from the spec: the storage engine (the \<open>database.DB\<close> handle and the query
  builder behind it) is not part of the repository. The specification asks of it an
  upsert by natural key: \<open>Where("vs_token_id = ?", key).Assign(attrs).FirstOrCreate(dest)\<close>
  overwrites name, symbol and market capitalisation of the row that has the key when there
  is one (the first one found), and inserts \<open>dest\<close> with these attributes when there is
  none. The table is the list of its rows in the order of insertion. The operation
  reports an error or none; the contract names no failure, so none is reported.
\<close>

fun upsert_coin :: "int \<Rightarrow> 'f VsCoinInfo \<Rightarrow> 'f VsCoinInfo \<Rightarrow> 'f VsCoinInfo list \<Rightarrow> 'f VsCoinInfo list" where
  "upsert_coin key attrs dest [] =
     [dest\<lparr>Name := Name attrs, Symbol := Symbol attrs, MarketCap := MarketCap attrs\<rparr>]"
| "upsert_coin key attrs dest (r # rs) =
     (if VSTokenID r = key
      then r\<lparr>Name := Name attrs, Symbol := Symbol attrs, MarketCap := MarketCap attrs\<rparr> # rs
      else r # upsert_coin key attrs dest rs)"

definition FirstOrCreate_coin ::
  "int \<Rightarrow> 'f VsCoinInfo \<Rightarrow> 'f VsCoinInfo \<Rightarrow> 'f world \<Rightarrow> error option \<times> 'f world" where
  "FirstOrCreate_coin key attrs dest w = (None, w\<lparr>coins := upsert_coin key attrs dest (coins w)\<rparr>)"

text \<open>
  Modelled from the spec: the same engine on the flow records, keyed on symbol and time:
  \<open>Where("symbol = ? AND time = ?", ...).Assign(&tradeInflow).FirstOrCreate(&tradeInflow)\<close>
  overwrites the row that has the key with the record, or inserts the record.
\<close>

fun upsert_flow :: "'f CoinTradeInflowDto \<Rightarrow> 'f CoinTradeInflowDto list \<Rightarrow> 'f CoinTradeInflowDto list" where
  "upsert_flow t [] = [t]"
| "upsert_flow t (r # rs) =
     (if Symbol_dto r = Symbol_dto t \<and> Time_dto r = Time_dto t then t # rs
      else r # upsert_flow t rs)"

definition FirstOrCreate_flow :: "'f CoinTradeInflowDto \<Rightarrow> 'f world \<Rightarrow> error option \<times> 'f world" where
  "FirstOrCreate_flow t w = (None, w\<lparr>flows := upsert_flow t (flows w)\<rparr>)"

text \<open>
  Modelled from the spec: \<open>Model(&VsCoinInfo{}).Pluck("vs_token_id", &ids)\<close> of the same
  engine reads the key of every row of the listing table.
\<close>

definition getVSTokenIDsFromDB :: "'f world \<Rightarrow> error + int list" where
  "getVSTokenIDsFromDB w = Inr (map VSTokenID (coins w))"

section \<open>Encoding and decoding of the envelope's data\<close>

text \<open>
  \<open>json.Marshal\<close> of a value that \<open>json.Unmarshal\<close> produced does not fail, and the
  encoding stands for the value. \<open>json.Unmarshal\<close> of the encoding into a variable of
  type \<open>map[string]interface{}\<close>: an object gives its map, null leaves the map nil
  (which reads as the empty map) with no error, every other value is an error.
\<close>

definition json_Marshal :: "'f val \<Rightarrow> error + 'f val" where
  "json_Marshal v = Inr v"

definition json_Unmarshal_map :: "'f val \<Rightarrow> error + (string \<times> 'f val) list" where
  "json_Unmarshal_map v =
     (case v of VObject m \<Rightarrow> Inr m | VNil \<Rightarrow> Inr [] | _ \<Rightarrow> Inl UnmarshalDataFailed)"

text \<open>\<open>strconv.FormatInt(i, 10)\<close>.\<close>

fun format_nat :: "nat \<Rightarrow> string" where
  "format_nat n =
     (if n < 10 then [''0123456789'' ! n]
      else format_nat (n div 10) @ [''0123456789'' ! (n mod 10)])"

declare format_nat.simps [simp del]

definition FormatInt :: "int \<Rightarrow> string" where
  "FormatInt i = (if i < 0 then CHR ''-'' # format_nat (nat (- i)) else format_nat (nat i))"

section \<open>The listing loop (funds package)\<close>

definition QueryCoins :: "'f world \<Rightarrow> string \<Rightarrow> (error + 'f val Response) \<times> 'f world" where
  "QueryCoins w accessToken =
     (let r = coin_net w (length (coin_queries w)) accessToken;
          w1 = logmsg LevelDebug ''Sending coin query request'' w;
          w2 = w1\<lparr>coin_queries := accessToken # coin_queries w1\<rparr>
      in case r of
           MarshalFails \<Rightarrow>
             (Inl MarshalRequestFailed,
              logmsg LevelError ''Failed to marshal coin query request body'' w)
         | NewRequestFails \<Rightarrow>
             (Inl CreateRequestFailed, logmsg LevelError ''Failed to create coin query request'' w)
         | SendFails \<Rightarrow>
             (Inl SendRequestFailed, logmsg LevelError ''Failed to send coin query request'' w2)
         | ReadFails \<Rightarrow>
             (Inl ReadBodyFailed, logmsg LevelError ''Failed to read coin query response'' w2)
         | Reply status body \<Rightarrow>
             if status \<noteq> 200
             then (Inl (HTTPError status), logmsg LevelError ''Coin query HTTP error'' w2)
             else (case body of
                     None \<Rightarrow>
                       (Inl UnmarshalResponseFailed,
                        logmsg LevelError ''Failed to unmarshal coin query response'' w2)
                   | Some coinResp \<Rightarrow>
                       if Code coinResp \<noteq> 200
                       then (Inl (QueryCoinsFailed (Code coinResp) (Msg coinResp)),
                             logmsg LevelError ''Coin query failed'' w2)
                       else (Inr coinResp, logmsg LevelInfo ''Coin query successful'' w2)))"

text \<open>
  \<open>GetCoinData\<close>, which no other function of the repository calls. \<open>CoinData\<close> is a
  typed struct; decoding into it is kept as a parameter.
\<close>

definition GetCoinData :: "('f val \<Rightarrow> error + 'c) \<Rightarrow> 'f val Response \<Rightarrow> error + 'c" where
  "GetCoinData decode resp =
     (if Code resp \<noteq> 200 then Inl (QueryCoinsFailed (Code resp) (Msg resp))
      else if Data resp = VString [] \<or> Data resp = VNil then Inl EmptyData
      else case json_Marshal (Data resp) of
             Inl err \<Rightarrow> Inl MarshalDataFailed
           | Inr dataBytes \<Rightarrow>
               (case decode dataBytes of Inl err \<Rightarrow> Inl UnmarshalDataFailed | Inr coinData \<Rightarrow> Inr coinData))"

text \<open>
  The body of the loop of \<open>saveCoinInfoToDB\<close> on one entry: \<open>Inl\<close> is a panic, and
  \<open>Inr ()\<close> is the end of the iteration, by \<open>continue\<close> or at its last statement.
\<close>

definition saveCoin :: "'f golib \<Rightarrow> 'f world \<Rightarrow> 'f val \<Rightarrow> (panic + unit) \<times> 'f world" where
  "saveCoin L w coin =
     (case assert_map coin of
        Inl p \<Rightarrow> (Inl p, w)
      | Inr coinMap \<Rightarrow>
         (case assert_string (index_map coinMap ''vsTokenId'') of
            Inl p \<Rightarrow> (Inl p, w)
          | Inr idStr \<Rightarrow>
             (case ParseInt idStr of
                None \<Rightarrow> (Inr (), logmsg LevelError ''Failed to parse VSTokenID'' w)
              | Some vsTokenID \<Rightarrow>
                 (case assert_string (index_map coinMap ''marketCap'') of
                    Inl p \<Rightarrow> (Inl p, w)
                  | Inr capStr \<Rightarrow>
                     (case ParseFloat L capStr of
                        None \<Rightarrow> (Inr (), logmsg LevelError ''Failed to parse MarketCap'' w)
                      | Some marketCap \<Rightarrow>
                         (case assert_string (index_map coinMap ''name'') of
                            Inl p \<Rightarrow> (Inl p, w)
                          | Inr name \<Rightarrow>
                             (case assert_string (index_map coinMap ''symbol'') of
                                Inl p \<Rightarrow> (Inl p, w)
                              | Inr symbol \<Rightarrow>
                                 (let vsCoinInfo = \<lparr>VSTokenID = vsTokenID, Name = name,
                                                     Symbol = symbol, MarketCap = marketCap\<rparr>;
                                      attrs = \<lparr>VSTokenID = 0, Name = name,
                                                Symbol = symbol, MarketCap = marketCap\<rparr>
                                  in case FirstOrCreate_coin vsTokenID attrs vsCoinInfo w of
                                       (Some err, w') \<Rightarrow>
                                         (Inr (), logmsg LevelError ''Failed to save coin record'' w')
                                     | (None, w') \<Rightarrow>
                                         (Inr (), logmsg LevelDebug ''Coin info saved'' w')))))))))"

fun saveCoinInfoToDB :: "'f golib \<Rightarrow> 'f world \<Rightarrow> 'f val list \<Rightarrow> (panic + error option) \<times> 'f world" where
  "saveCoinInfoToDB L w [] = (Inr None, w)"
| "saveCoinInfoToDB L w (coin # coinList) =
     (case saveCoin L w coin of
        (Inl p, w') \<Rightarrow> (Inl p, w')
      | (Inr u, w') \<Rightarrow> saveCoinInfoToDB L w' coinList)"

definition processCoinInfoTask :: "'f golib \<Rightarrow> 'f world \<Rightarrow> (panic + unit) \<times> 'f world" where
  "processCoinInfoTask L w =
     (case GetTokens (logmsg LevelInfo ''Processing coin info task'' w) of
        (Inl err, w1) \<Rightarrow>
          (Inr (), logmsg LevelError ''Failed to get tokens for coin info task'' w1)
      | (Inr tokenPair, w1) \<Rightarrow>
         (case QueryCoins w1 (AccountToken tokenPair) of
            (Inl err, w2) \<Rightarrow> (Inr (), logmsg LevelError ''Coin query failed'' w2)
          | (Inr coinResp, w2) \<Rightarrow>
             (let w3 = logmsg LevelInfo ''Coin query successful'' w2
              in if Code coinResp \<noteq> 200
                 then (Inr (), logmsg LevelError ''Invalid response code'' w3)
                 else case json_Marshal (Data coinResp) of
                   Inl err \<Rightarrow> (Inr (), logmsg LevelError ''Failed to marshal response data'' w3)
                 | Inr dataBytes \<Rightarrow>
                    (case json_Unmarshal_map dataBytes of
                       Inl err \<Rightarrow> (Inr (), logmsg LevelError ''Failed to unmarshal coin data'' w3)
                     | Inr coinData \<Rightarrow>
                        (case assert_slice (index_map coinData ''list'') of
                           Inl p \<Rightarrow> (Inl p, w3)
                         | Inr coinList \<Rightarrow>
                            (case saveCoinInfoToDB L (logmsg LevelInfo ''Parsed coin data'' w3) coinList of
                               (Inl p, w4) \<Rightarrow> (Inl p, w4)
                             | (Inr (Some err), w4) \<Rightarrow>
                                 (Inr (), logmsg LevelError ''Failed to save coin info to database'' w4)
                             | (Inr None, w4) \<Rightarrow>
                                 (Inr (), logmsg LevelInfo ''Coin info task completed successfully'' w4)))))))"

section \<open>The fund-flow loop (funds package)\<close>

text \<open>
  The functions of this loop reach the token manager at one place, the call
  \<open>authService.ValidateAndRefreshToken(accessToken)\<close> in \<open>GetTradeInflow\<close>. Each of
  them is written twice: with that method as the parameter \<open>validate\<close> (the names that
  end in \<open>_with\<close>), so that what the loop does with the token it gets back can be stated
  whatever the method does, and with the method of the repository in its place.

  \<open>GetTradeInflow\<close>. The request is a GET with no body: an environment that answers
  \<open>MarshalFails\<close> is read as one in which the request cannot be built. A request that
  is sent is recorded with the \<open>accessToken\<close> header it carries and its keyword.
\<close>

type_synonym 'f validator = "'f world \<Rightarrow> string \<Rightarrow> (error + string) \<times> 'f world"

definition GetTradeInflow_with ::
  "'f validator \<Rightarrow> 'f world \<Rightarrow> string \<Rightarrow> string \<Rightarrow> (error + 'f val Response) \<times> 'f world" where
  "GetTradeInflow_with validate w accessToken vsTokenID =
     (case validate w accessToken of
        (Inl err, w1) \<Rightarrow> (Inl (ValidateTokenFailed err), w1)
      | (Inr validToken, w1) \<Rightarrow>
         (let r = flow_net w1 (length (flow_requests w1)) validToken vsTokenID;
              w2 = w1\<lparr>flow_requests := (validToken, vsTokenID) # flow_requests w1\<rparr>
          in case r of
               MarshalFails \<Rightarrow> (Inl CreateRequestFailed, w1)
             | NewRequestFails \<Rightarrow> (Inl CreateRequestFailed, w1)
             | SendFails \<Rightarrow> (Inl SendRequestFailed, w2)
             | ReadFails \<Rightarrow> (Inl ReadBodyFailed, w2)
             | Reply status body \<Rightarrow>
                 (case body of
                    None \<Rightarrow> (Inl UnmarshalResponseFailed, w2)
                  | Some tradeInflowResp \<Rightarrow>
                      (Inr tradeInflowResp,
                       logmsg LevelInfo ''Trade inflow response received'' w2))))"

definition GetTradeInflow ::
  "'f world \<Rightarrow> string \<Rightarrow> string \<Rightarrow> (error + 'f val Response) \<times> 'f world" where
  "GetTradeInflow = GetTradeInflow_with ValidateAndRefreshToken"

definition saveTrade ::
  "'f golib \<Rightarrow> 'f world \<Rightarrow> string \<Rightarrow> 'f val \<Rightarrow> (panic + unit) \<times> 'f world" where
  "saveTrade L w symbol trade =
     (case assert_map trade of
        Inl p \<Rightarrow> (Inl p, w)
      | Inr tradeMap \<Rightarrow>
         (let tradeInflow =
                \<lparr>Symbol_dto = symbol,
                 TimeParticleEnum = getInt L (index_map tradeMap ''timeParticleEnum''),
                 Time_dto = getString L (index_map tradeMap ''time''),
                 Stop = getBool (index_map tradeMap ''stop''),
                 StopTradeInflow = getFloat64 L (index_map tradeMap ''stopTradeInflow''),
                 StopTradeAmount = getFloat64 L (index_map tradeMap ''stopTradeAmount''),
                 StopTradeInflowChange = getFloat64 L (index_map tradeMap ''stopTradeInflowChange''),
                 StopTradeAmountChange = getFloat64 L (index_map tradeMap ''stopTradeAmountChange''),
                 Contract = getBool (index_map tradeMap ''contract''),
                 ContractTradeInflow = getFloat64 L (index_map tradeMap ''contractTradeInflow''),
                 ContractTradeAmount = getFloat64 L (index_map tradeMap ''contractTradeAmount''),
                 ContractTradeInflowChange =
                   getFloat64 L (index_map tradeMap ''contractTradeInflowChange''),
                 ContractTradeAmountChange =
                   getFloat64 L (index_map tradeMap ''contractTradeAmountChange''),
                 StopTradeIn = getFloat64 L (index_map tradeMap ''stopTradeIn''),
                 StopTradeOut = getFloat64 L (index_map tradeMap ''stopTradeOut''),
                 ContractTradeIn = getFloat64 L (index_map tradeMap ''contractTradeIn''),
                 ContractTradeOut = getFloat64 L (index_map tradeMap ''contractTradeOut'')\<rparr>
          in case FirstOrCreate_flow tradeInflow w of
               (Some err, w') \<Rightarrow>
                 (Inr (), logmsg LevelError ''Failed to save trade inflow record'' w')
             | (None, w') \<Rightarrow> (Inr (), logmsg LevelDebug ''Trade inflow saved'' w')))"

fun saveTradeInflowToDB ::
  "'f golib \<Rightarrow> 'f world \<Rightarrow> 'f val list \<Rightarrow> string \<Rightarrow> (panic + error option) \<times> 'f world" where
  "saveTradeInflowToDB L w [] symbol = (Inr None, w)"
| "saveTradeInflowToDB L w (trade # tradeList) symbol =
     (case saveTrade L w symbol trade of
        (Inl p, w') \<Rightarrow> (Inl p, w')
      | (Inr u, w') \<Rightarrow> saveTradeInflowToDB L w' tradeList symbol)"

text \<open>
  \<open>queryAndSaveTradeInflow\<close> is handed a pointer to the caller's variable
  \<open>currentToken\<close>. The variable is an argument here and its value at the return is the
  second component of the result.
\<close>

definition queryAndSaveTradeInflow_with ::
  "'f validator \<Rightarrow> 'f golib \<Rightarrow> 'f world \<Rightarrow> string \<Rightarrow> int
     \<Rightarrow> (panic + error option) \<times> string \<times> 'f world" where
  "queryAndSaveTradeInflow_with validate L w accessToken vsTokenID =
     (let vsTokenIDStr = FormatInt vsTokenID
      in case GetTradeInflow_with validate w accessToken vsTokenIDStr of
           (Inl err, w1) \<Rightarrow> (Inr (Some (GetTradeInflowFailed err)), accessToken, w1)
         | (Inr resp, w1) \<Rightarrow>
             if Code resp \<noteq> 200
             then (Inr (Some (InvalidResponseCode (Code resp) (Msg resp))), accessToken, w1)
             else (case json_Marshal (Data resp) of
               Inl err \<Rightarrow> (Inr (Some MarshalDataFailed), accessToken, w1)
             | Inr dataBytes \<Rightarrow>
                (case json_Unmarshal_map dataBytes of
                   Inl err \<Rightarrow> (Inr (Some UnmarshalDataFailed), accessToken, w1)
                 | Inr tradeData \<Rightarrow>
                    (let w2 = logmsg LevelInfo ''Trade inflow API response structure'' w1
                     in if index_map tradeData ''coinTradeInflowDtoList'' = VNil
                        then (Inr None, accessToken,
                              logmsg LevelInfo ''No trade inflow data found'' w2)
                        else case assert_slice (index_map tradeData ''coinTradeInflowDtoList'') of
                          Inl p \<Rightarrow> (Inl p, accessToken, w2)
                        | Inr tradeList \<Rightarrow>
                           (let symbol = getString L (index_map tradeData ''symbol'');
                                w3 = logmsg LevelInfo ''Found trade inflow data'' w2
                            in case saveTradeInflowToDB L w3 tradeList symbol of
                                 (res, w4) \<Rightarrow> (res, accessToken, w4))))))"

definition queryAndSaveTradeInflow ::
  "'f golib \<Rightarrow> 'f world \<Rightarrow> string \<Rightarrow> int \<Rightarrow> (panic + error option) \<times> string \<times> 'f world" where
  "queryAndSaveTradeInflow = queryAndSaveTradeInflow_with ValidateAndRefreshToken"

text \<open>
  The loop of \<open>processTradeInflow\<close> over the identifiers, with its two variables
  \<open>successCount\<close> and \<open>currentToken\<close>; a panic ends it.
\<close>

fun processTradeInflow_loop_with ::
  "'f validator \<Rightarrow> 'f golib \<Rightarrow> 'f world \<Rightarrow> nat \<Rightarrow> string \<Rightarrow> int list
     \<Rightarrow> (panic + nat) \<times> string \<times> 'f world" where
  "processTradeInflow_loop_with validate L w successCount currentToken [] =
     (Inr successCount, currentToken, w)"
| "processTradeInflow_loop_with validate L w successCount currentToken (vsTokenID # vsTokenIDs) =
     (case queryAndSaveTradeInflow_with validate L w currentToken vsTokenID of
        (Inl p, currentToken', w') \<Rightarrow> (Inl p, currentToken', w')
      | (Inr (Some err), currentToken', w') \<Rightarrow>
          processTradeInflow_loop_with validate L
            (logmsg LevelError ''Failed to process trade inflow for token'' w')
            successCount currentToken' vsTokenIDs
      | (Inr None, currentToken', w') \<Rightarrow>
          processTradeInflow_loop_with validate L w' (Suc successCount) currentToken' vsTokenIDs)"

definition processTradeInflow_with ::
  "'f validator \<Rightarrow> 'f golib \<Rightarrow> 'f world \<Rightarrow> string \<Rightarrow> (panic + unit) \<times> 'f world" where
  "processTradeInflow_with validate L w accessToken =
     (let w1 = logmsg LevelInfo ''Processing trade inflow data'' w
      in case getVSTokenIDsFromDB w1 of
           Inl err \<Rightarrow>
             (Inr (), logmsg LevelError ''Failed to get VSTokenIDs from database'' w1)
         | Inr vsTokenIDs \<Rightarrow>
            (case processTradeInflow_loop_with validate L
                    (logmsg LevelInfo ''Found VSTokenIDs in database'' w1) 0 accessToken vsTokenIDs of
               (Inl p, currentToken, w2) \<Rightarrow> (Inl p, w2)
             | (Inr successCount, currentToken, w2) \<Rightarrow>
                 (Inr (), logmsg LevelInfo ''Trade inflow processing completed'' w2)))"

definition processTradeInflow_loop ::
  "'f golib \<Rightarrow> 'f world \<Rightarrow> nat \<Rightarrow> string \<Rightarrow> int list \<Rightarrow> (panic + nat) \<times> string \<times> 'f world" where
  "processTradeInflow_loop = processTradeInflow_loop_with ValidateAndRefreshToken"

definition processTradeInflow :: "'f golib \<Rightarrow> 'f world \<Rightarrow> string \<Rightarrow> (panic + unit) \<times> 'f world" where
  "processTradeInflow = processTradeInflow_with ValidateAndRefreshToken"

section \<open>Predicates on listing entries and on the log\<close>

text \<open>
  The words the properties of the listing loop are stated in. An entry is well formed when
  it is an object whose \<open>vsTokenId\<close>, \<open>marketCap\<close>, \<open>name\<close> and \<open>symbol\<close> are strings,
  the first a decimal 64-bit integer and the second a number; \<open>entry_row\<close> is the row it
  then stands for, and \<open>None\<close> otherwise.
\<close>

definition entry_row :: "'f golib \<Rightarrow> 'f val \<Rightarrow> 'f VsCoinInfo option" where
  "entry_row L coin =
     (case coin of
        VObject m \<Rightarrow>
          (case (ok_string (index_map m ''vsTokenId''), ok_string (index_map m ''marketCap''),
                 ok_string (index_map m ''name''), ok_string (index_map m ''symbol'')) of
             (Some i, Some c, Some n, Some s) \<Rightarrow>
               (case (ParseInt i, ParseFloat L c) of
                  (Some k, Some cap) \<Rightarrow>
                    Some \<lparr>VSTokenID = k, Name = n, Symbol = s, MarketCap = cap\<rparr>
                | _ \<Rightarrow> None)
           | _ \<Rightarrow> None)
      | _ \<Rightarrow> None)"

text \<open>
  An entry with a non-numeric string: an object whose \<open>vsTokenId\<close> and \<open>marketCap\<close> are
  strings, one of which does not parse.
\<close>

definition non_numeric_entry :: "'f golib \<Rightarrow> 'f val \<Rightarrow> bool" where
  "non_numeric_entry L coin =
     (case coin of
        VObject m \<Rightarrow>
          (case (ok_string (index_map m ''vsTokenId''), ok_string (index_map m ''marketCap'')) of
             (Some i, Some c) \<Rightarrow> ParseInt i = None \<or> ParseFloat L c = None
           | _ \<Rightarrow> False)
      | _ \<Rightarrow> False)"

text \<open>
  An entry on which an unchecked assertion fails: it is not an object; or its
  \<open>vsTokenId\<close> is not a string; or that string parses and \<open>marketCap\<close> is not a string; or
  both strings parse and \<open>name\<close> or \<open>symbol\<close> is not a string. An absent field reads as
  nil, which is not a string.
\<close>

definition panicking_entry :: "'f golib \<Rightarrow> 'f val \<Rightarrow> bool" where
  "panicking_entry L coin =
     (case coin of
        VObject m \<Rightarrow>
          (case ok_string (index_map m ''vsTokenId'') of
             None \<Rightarrow> True
           | Some i \<Rightarrow>
               ParseInt i \<noteq> None \<and>
               (case ok_string (index_map m ''marketCap'') of
                  None \<Rightarrow> True
                | Some c \<Rightarrow>
                    ParseFloat L c \<noteq> None \<and>
                    (ok_string (index_map m ''name'') = None
                     \<or> ok_string (index_map m ''symbol'') = None)))
      | _ \<Rightarrow> True)"

text \<open>The upsert of a row under its own key, and the number of calls of the logger with a
  given level and message.\<close>

definition put_row :: "'f VsCoinInfo \<Rightarrow> 'f VsCoinInfo list \<Rightarrow> 'f VsCoinInfo list" where
  "put_row r rows = upsert_coin (VSTokenID r) r r rows"

abbreviation put_rows :: "'f VsCoinInfo list \<Rightarrow> 'f VsCoinInfo list \<Rightarrow> 'f VsCoinInfo list" where
  "put_rows R ps \<equiv> foldl (\<lambda>rows r. put_row r rows) R ps"

definition count_log :: "level \<Rightarrow> string \<Rightarrow> 'f world \<Rightarrow> nat" where
  "count_log lvl msg w = length (filter (\<lambda>e. e = (lvl, msg)) (log w))"

text \<open>
  What a run of the fund-flow loop adds to a world, when it does no login and every request
  it sends carries the token \<open>tok\<close>.
\<close>

definition sends_only :: "string \<Rightarrow> 'f world \<Rightarrow> 'f world \<Rightarrow> bool" where
  "sends_only tok w w' \<longleftrightarrow>
     logins w' = logins w
     \<and> (\<exists>new. flow_requests w' = new @ flow_requests w \<and> (\<forall>r\<in>set new. fst r = tok))"

section \<open>Example inputs\<close>

text \<open>
  An instance of the library parameters on which the definitions can be evaluated: its
  floats are the integers, and \<open>ParseFloat\<close> reads an integer.
\<close>

definition int_lib :: "int golib" where
  "int_lib = \<lparr>ParseFloat = ParseInt, float64_of_int = (\<lambda>n. n), int_of_float64 = (\<lambda>x. x),
              float64_zero = 0, Sprintf_v = (\<lambda>v. ''?'')\<rparr>"

definition login_ok :: "string \<Rightarrow> string \<Rightarrow> LoginData Response exchange" where
  "login_ok a r =
     Reply 200 (Some \<lparr>Code = 200, Data = \<lparr>AccountToken = a, RefreshToken = r\<rparr>,
                      Msg = ''success'', ReqID = ''1'', UserRole = ''user''\<rparr>)"

text \<open>
  A world at second 200 in which every login succeeds with the token \<open>new\<close>, and the
  other endpoints answer nothing.
\<close>

definition world200 :: "int world" where
  "world200 =
     \<lparr>unix_now = 200, login_net = (\<lambda>n. login_ok ''new'' ''new-refresh''),
      coin_net = (\<lambda>n tok. SendFails), flow_net = (\<lambda>n tok kw. SendFails),
      logins = 0, coin_queries = [], flow_requests = [], coins = [], flows = [], log = []\<rparr>"

text \<open>A pair that expired at second 100 and a pair with no expiry.\<close>

definition expired_pair :: TokenPair where
  "expired_pair = \<lparr>AccountToken = ''old'', RefreshToken = ''old-refresh'',
                    ExpiresAt = 100, RefreshExpiresAt = 0\<rparr>"

definition unset_pair :: TokenPair where
  "unset_pair = NewTokenPair ''old'' ''old-refresh''"

text \<open>
  Listing entries: two that are well formed, one whose market capitalisation is not a
  number, and one whose identifier is not a number and that has no name.
\<close>

definition coin_entry :: "string \<Rightarrow> string \<Rightarrow> string \<Rightarrow> string \<Rightarrow> int val" where
  "coin_entry i n s c =
     VObject [(''vsTokenId'', VString i), (''name'', VString n), (''symbol'', VString s),
              (''marketCap'', VString c)]"

definition btc_entry :: "int val" where
  "btc_entry = coin_entry ''1'' ''Bitcoin'' ''BTC'' ''2000''"

definition eth_entry :: "int val" where
  "eth_entry = coin_entry ''2'' ''Ethereum'' ''ETH'' ''400''"

definition doge_entry :: "int val" where
  "doge_entry = coin_entry ''3'' ''Dogecoin'' ''DOGE'' ''n/a''"

definition nameless_entry :: "int val" where
  "nameless_entry =
     VObject [(''vsTokenId'', VString ''abc''), (''symbol'', VString ''X''),
              (''marketCap'', VString ''1'')]"

text \<open>An entry whose two numeric strings parse and that has no name.\<close>

definition unnamed_entry :: "int val" where
  "unnamed_entry =
     VObject [(''vsTokenId'', VString ''7''), (''symbol'', VString ''X''),
              (''marketCap'', VString ''1'')]"

text \<open>
  A world in which the listing endpoint answers with business code 200 and a null
  \<open>data\<close>, and the envelope it answers with.
\<close>

definition null_data_response :: "int val Response" where
  "null_data_response =
     \<lparr>Code = 200, Data = VNil, Msg = ''success'', ReqID = ''2'', UserRole = ''user''\<rparr>"

definition null_data_world :: "int world" where
  "null_data_world = world200\<lparr>coin_net := (\<lambda>n tok. Reply 200 (Some null_data_response))\<rparr>"

text \<open>
  A world in which the listing endpoint answers with a page of three entries, the second
  of which has a market capitalisation that is not a number.
\<close>

definition three_entry_world :: "int world" where
  "three_entry_world =
     world200\<lparr>coin_net := (\<lambda>n tok. Reply 200 (Some \<lparr>Code = 200,
                  Data = VObject [(''total'', VFloat64 3),
                                  (''list'', VArray [btc_entry, doge_entry, eth_entry]),
                                  (''extend'', VString [])],
                  Msg = ''success'', ReqID = ''2'', UserRole = ''user''\<rparr>))\<rparr>"

text \<open>
  A world whose listing table has the assets 1 and 2, in which the n-th login returns the
  token \<open>T1\<close>, \<open>T2\<close>, ... and the fund-flow endpoint answers every request with
  business code 200 and an empty object.
\<close>

definition two_asset_world :: "int world" where
  "two_asset_world =
     world200\<lparr>login_net := (\<lambda>n. login_ok (CHR ''T'' # FormatInt (int n + 1)) ''refresh''),
              flow_net := (\<lambda>n tok kw. Reply 200 (Some \<lparr>Code = 200, Data = VObject [],
                             Msg = ''success'', ReqID = ''3'', UserRole = ''user''\<rparr>)),
              coins := [\<lparr>VSTokenID = 1, Name = ''Bitcoin'', Symbol = ''BTC'', MarketCap = 2000\<rparr>,
                        \<lparr>VSTokenID = 2, Name = ''Ethereum'', Symbol = ''ETH'', MarketCap = 400\<rparr>]\<rparr>"

text \<open>
  The branch of \<open>ValidateAndRefreshToken\<close> that logs in again, and a validator that
  takes it for one token, the one that has expired, and returns every other token as it
  is.
\<close>

definition relogin_validator :: "'f validator" where
  "relogin_validator w accessToken =
     (case GetTokens (logmsg LevelInfo ''Token expired, attempting re-login'' w) of
        (Inl err, w') \<Rightarrow> (Inl (ReLoginFailed err), w')
      | (Inr newTokenPair, w') \<Rightarrow>
          (Inr (AccountToken newTokenPair), logmsg LevelInfo ''Successfully re-logged in'' w'))"

definition expiry_validator :: "string \<Rightarrow> 'f validator" where
  "expiry_validator expired w accessToken =
     (if accessToken \<noteq> expired
      then (Inr accessToken, logmsg LevelDebug ''Token is still valid'' w)
      else relogin_validator w accessToken)"

section \<open>Properties of the token manager\<close>

lemma GetTokens_counts_one_login: "logins (snd (GetTokens w)) = Suc (logins w)"
  by (simp add: GetTokens_def Login_def logmsg_def Let_def split: exchange.splits option.splits)

lemma GetTokens_pair_has_no_expiry:
  "fst (GetTokens w) = Inr tp \<Longrightarrow> ExpiresAt tp = 0 \<and> RefreshExpiresAt tp = 0"
  by (auto simp: GetTokens_def NewTokenPair_def split: prod.splits sum.splits)

lemma GetTokensWithExpiry_pair_has_no_expiry:
  "fst (GetTokensWithExpiry w) = Inr tp \<Longrightarrow> ExpiresAt tp = 0 \<and> RefreshExpiresAt tp = 0"
  by (auto simp: GetTokensWithExpiry_def extractExpiryFromJWT_def NewTokenPair_def
           split: prod.splits sum.splits)

text \<open>
  \<open>ValidateAndRefreshToken\<close> is a conditional on \<open>IsValid\<close> of the pair it builds. The
  branch that logs in again, taken on its own, makes exactly one login, and when that
  login succeeds it returns the account token of the reply.
\<close>

lemma ValidateAndRefreshToken_is_a_conditional:
  "ValidateAndRefreshToken w accessToken =
     (if IsValid (unix_now w)
           \<lparr>AccountToken = accessToken, RefreshToken = [], ExpiresAt = 0, RefreshExpiresAt = 0\<rparr>
      then (Inr accessToken, logmsg LevelDebug ''Token is still valid'' w)
      else relogin_validator w accessToken)"
  by (simp add: ValidateAndRefreshToken_def relogin_validator_def)

lemma relogin_validator_logs_in_once:
  "logins (snd (relogin_validator w accessToken)) = Suc (logins w)"
  "login_net w (logins w) = login_ok a r \<Longrightarrow> fst (relogin_validator w accessToken) = Inr a"
  by (simp_all add: relogin_validator_def GetTokens_def Login_def login_ok_def logmsg_def
        NewTokenPair_def Let_def split: exchange.splits option.splits)

text \<open>
  C2. For every pair and every reading of the clock, \<open>IsValid\<close> is true if and only if
  \<open>ExpiresAt\<close> is zero or the clock is strictly before it, and \<open>IsRefreshValid\<close> is
  the same test on \<open>RefreshExpiresAt\<close>; a pair whose expiry is zero is valid whatever the
  clock shows.
\<close>

theorem IsValid_iff_unset_or_before:
  "IsValid now tp = (ExpiresAt tp = 0 \<or> now < ExpiresAt tp)
   \<and> IsRefreshValid now tp = (RefreshExpiresAt tp = 0 \<or> now < RefreshExpiresAt tp)
   \<and> IsValid now (tp\<lparr>ExpiresAt := 0\<rparr>)
   \<and> IsRefreshValid now (tp\<lparr>RefreshExpiresAt := 0\<rparr>)"
  by (simp add: IsValid_def IsRefreshValid_def)

text \<open>
  C9. The pair that \<open>ValidateAndRefreshToken\<close> builds from the bare string is valid at
  every reading of the clock, so for every world and every string the function returns the
  string it was given with no error; the world it leaves differs from the one it found by
  one debug line of the log only, so no login took place and the branch that logs in again
  is never taken.
\<close>

theorem ValidateAndRefreshToken_returns_its_input:
  "IsValid now \<lparr>AccountToken = accessToken, RefreshToken = [], ExpiresAt = 0, RefreshExpiresAt = 0\<rparr>
   \<and> ValidateAndRefreshToken w accessToken
       = (Inr accessToken, logmsg LevelDebug ''Token is still valid'' w)
   \<and> logins (snd (ValidateAndRefreshToken w accessToken)) = logins w"
  by (simp add: ValidateAndRefreshToken_def IsValid_def logmsg_def)

text \<open>
  C1, as the specification states it, fails: the pair \<open>expired_pair\<close> expired at second
  100, the clock shows 200 and \<open>IsValid\<close> is false on it, a login would return the token
  \<open>new\<close>; yet \<open>ValidateAndRefreshToken\<close>, which is handed the access token of the pair
  and not the pair, returns \<open>old\<close> and no login takes place.
\<close>

theorem expired_pair_is_not_refreshed:
  "\<not> IsValid (unix_now world200) expired_pair
   \<and> fst (GetTokens world200) = Inr (NewTokenPair ''new'' ''new-refresh'')
   \<and> fst (ValidateAndRefreshToken world200 (AccountToken expired_pair)) = Inr ''old''
   \<and> logins (snd (ValidateAndRefreshToken world200 (AccountToken expired_pair))) = 0"
  by (simp add: ValidateAndRefreshToken_def IsValid_def logmsg_def GetTokens_def Login_def
        world200_def expired_pair_def login_ok_def Let_def)

text \<open>
  C1, amended. \<open>ValidateAndRefreshToken\<close> is given the access token of a pair. When
  \<open>IsValid\<close> is true of the pair, it returns that very token and no login takes place.
  When the expiry of the pair is set and not after the clock, \<open>IsValid\<close> is false of the
  pair, and the function, which never sees the expiry, still returns that very token and
  no login takes place.
\<close>

theorem ValidateAndRefreshToken_on_pairs:
  "(IsValid (unix_now w) tp \<longrightarrow>
      fst (ValidateAndRefreshToken w (AccountToken tp)) = Inr (AccountToken tp)
      \<and> logins (snd (ValidateAndRefreshToken w (AccountToken tp))) = logins w)
   \<and> (ExpiresAt tp \<noteq> 0 \<and> ExpiresAt tp \<le> unix_now w \<longrightarrow>
      \<not> IsValid (unix_now w) tp
      \<and> fst (ValidateAndRefreshToken w (AccountToken tp)) = Inr (AccountToken tp)
      \<and> logins (snd (ValidateAndRefreshToken w (AccountToken tp))) = logins w)"
  by (simp add: ValidateAndRefreshToken_def IsValid_def logmsg_def)

theorem ValidateAndRefreshToken_on_pairs_witness:
  "(IsValid (unix_now world200) unset_pair
    \<and> fst (ValidateAndRefreshToken world200 (AccountToken unset_pair)) = Inr ''old''
    \<and> logins (snd (ValidateAndRefreshToken world200 (AccountToken unset_pair))) = 0)
   \<and> (ExpiresAt expired_pair \<noteq> 0 \<and> ExpiresAt expired_pair \<le> unix_now world200
    \<and> \<not> IsValid (unix_now world200) expired_pair
    \<and> fst (ValidateAndRefreshToken world200 (AccountToken expired_pair)) = Inr ''old''
    \<and> logins (snd (ValidateAndRefreshToken world200 (AccountToken expired_pair))) = 0)"
proof -
  have v: "IsValid (unix_now world200) unset_pair"
    by (simp add: IsValid_def unset_pair_def NewTokenPair_def)
  have e: "ExpiresAt expired_pair \<noteq> 0 \<and> ExpiresAt expired_pair \<le> unix_now world200"
    by (simp add: expired_pair_def world200_def)
  have l: "logins world200 = 0" by (simp add: world200_def)
  have a: "AccountToken unset_pair = ''old''" "AccountToken expired_pair = ''old''"
    by (simp_all add: unset_pair_def NewTokenPair_def expired_pair_def)
  from ValidateAndRefreshToken_on_pairs [of world200 unset_pair]
       ValidateAndRefreshToken_on_pairs [of world200 expired_pair] v e
  show ?thesis unfolding l a by blast
qed

section \<open>Properties of the clock alignment\<close>

lemma fields_of_now:
  fixes now :: int
  defines "k \<equiv> now div time_Minute"
  shows "Minute now = k mod 60"
    and "now div time_Hour = k div 60"
    and "DayOf now = (k div 60) div 24"
    and "Hour now = (k div 60) mod 24"
proof -
  show "Minute now = k mod 60" by (simp add: Minute_def k_def)
  show h: "now div time_Hour = k div 60"
    unfolding k_def time_Hour_def
    by (simp add: zdiv_zmult2_eq mult.commute)
  show "DayOf now = (k div 60) div 24"
    unfolding DayOf_def using h
    by (metis zdiv_zmult2_eq mult.commute zero_le_numeral)
  show "Hour now = (k div 60) mod 24"
    by (simp add: Hour_def h)
qed

lemma day_hour_recombine:
  "(q div 24) * (24 * h) + (q mod 24) * h = q * (h::int)"
proof -
  have "q * h = (24 * (q div 24) + q mod 24) * h"
    by (simp only: mult_div_mod_eq)
  also have "\<dots> = 24 * (q div 24) * h + (q mod 24) * h"
    by (rule distrib_right)
  finally show ?thesis by (simp add: mult.commute mult.left_commute)
qed

lemma Date_of_now:
  "Date (DayOf now) (Hour now) x 0 0 = (now div time_Minute div 60) * time_Hour + x * time_Minute"
  by (simp add: Date_def fields_of_now day_hour_recombine)

lemma naive5MinuteMark_cases:
  "(naive5MinuteMark now < now
      \<and> naive5MinuteMark now + time_Hour = (now div (5 * time_Minute) + 1) * (5 * time_Minute))
   \<or> (now < naive5MinuteMark now
      \<and> naive5MinuteMark now = (now div (5 * time_Minute) + 1) * (5 * time_Minute))"
proof -
  define k where "k = now div time_Minute"
  define r where "r = now mod time_Minute"
  define q where "q = k div 60"
  define m where "m = k mod 60"
  define a where "a = m div 5"
  define b where "b = m mod 5"
  have M: "time_Minute = 60000000000" by (simp add: time_Minute_def time_Second_def)
  have H: "time_Hour = 3600000000000" by (simp add: time_Hour_def M)
  have r: "0 \<le> r" "r < 60000000000" by (simp_all add: r_def M)
  have "now = k * time_Minute + r" by (simp add: k_def r_def)
  moreover have k: "k = 60 * q + m" by (simp add: q_def m_def)
  moreover have m: "m = 5 * a + b" by (simp add: a_def b_def)
  ultimately have now: "now = (60 * q + 5 * a + b) * 60000000000 + r" by (simp add: M)
  have b: "0 \<le> b" "b < 5" by (simp_all add: b_def)
  have "0 \<le> m" "m < 60" by (simp_all add: m_def)
  then have a: "0 \<le> a" "a \<le> 11" unfolding a_def by presburger+
  have nm: "(Minute now div 5 + 1) * 5 = (a + 1) * 5"
    by (simp add: fields_of_now m_def k_def a_def)
  have cand: "\<And>x. Date (DayOf now) (Hour now) x 0 0 = q * 3600000000000 + x * 60000000000"
    by (simp add: Date_of_now q_def k_def H M)
  have "now div (5 * time_Minute) = k div 5"
    unfolding k_def by (simp add: zdiv_zmult2_eq mult.commute)
  also have "k div 5 = 12 * q + a" unfolding k a_def by presburger
  finally have rhs: "(now div (5 * time_Minute) + 1) * (5 * time_Minute) = (12 * q + a + 1) * 300000000000"
    by (simp add: M)
  show ?thesis
  proof (cases "a = 11")
    case True
    have "q * 3600000000000 < now" using now True b r by (simp add: algebra_simps)
    then show ?thesis
      unfolding rhs naive5MinuteMark_def nm by (simp add: True cand H)
  next
    case False
    with a have lt: "a < 11" by simp
    have "now < q * 3600000000000 + (a + 1) * 5 * 60000000000"
      using now b r by (simp add: algebra_simps)
    then show ?thesis
      unfolding rhs naive5MinuteMark_def nm using lt by (simp add: cand H algebra_simps)
  qed
qed

lemma next5MinuteMark_closed:
  "next5MinuteMark now = (now div (5 * time_Minute) + 1) * (5 * time_Minute)"
  using naive5MinuteMark_cases [of now] by (auto simp: next5MinuteMark_def Let_def)

lemma naive4HourMark_cases:
  "(naive4HourMark now < now
      \<and> naive4HourMark now + 24 * time_Hour = (now div (4 * time_Hour) + 1) * (4 * time_Hour))
   \<or> (now < naive4HourMark now
      \<and> naive4HourMark now = (now div (4 * time_Hour) + 1) * (4 * time_Hour))"
proof -
  define k where "k = now div time_Hour"
  define r where "r = now mod time_Hour"
  define d where "d = k div 24"
  define h where "h = k mod 24"
  define a where "a = h div 4"
  define b where "b = h mod 4"
  have H: "time_Hour = 3600000000000" by (simp add: time_Hour_def time_Minute_def time_Second_def)
  have r: "0 \<le> r" "r < 3600000000000" by (simp_all add: r_def H)
  have "now = k * time_Hour + r" by (simp add: k_def r_def)
  moreover have k: "k = 24 * d + h" by (simp add: d_def h_def)
  moreover have h: "h = 4 * a + b" by (simp add: a_def b_def)
  ultimately have now: "now = (24 * d + 4 * a + b) * 3600000000000 + r" by (simp add: H)
  have b: "0 \<le> b" "b < 4" by (simp_all add: b_def)
  have "0 \<le> h" "h < 24" by (simp_all add: h_def)
  then have a: "0 \<le> a" "a \<le> 5" unfolding a_def by presburger+
  have nh: "(Hour now div 4 + 1) * 4 = (a + 1) * 4"
    by (simp add: Hour_def h_def k_def a_def)
  have day: "DayOf now = d"
    unfolding DayOf_def d_def k_def by (simp add: zdiv_zmult2_eq mult.commute)
  have cand: "\<And>x. Date (DayOf now) x 0 0 0 = d * 86400000000000 + x * 3600000000000"
    by (simp add: Date_def day H)
  have "now div (4 * time_Hour) = k div 4"
    unfolding k_def by (simp add: zdiv_zmult2_eq mult.commute)
  also have "k div 4 = 6 * d + a" unfolding k a_def by presburger
  finally have rhs: "(now div (4 * time_Hour) + 1) * (4 * time_Hour) = (6 * d + a + 1) * 14400000000000"
    by (simp add: H)
  show ?thesis
  proof (cases "a = 5")
    case True
    have "d * 86400000000000 < now" using now True b r by (simp add: algebra_simps)
    then show ?thesis
      unfolding rhs naive4HourMark_def nh by (simp add: True cand H)
  next
    case False
    with a have lt: "a < 5" by simp
    have "now < d * 86400000000000 + (a + 1) * 4 * 3600000000000"
      using now b r by (simp add: algebra_simps)
    then show ?thesis
      unfolding rhs naive4HourMark_def nh using lt by (simp add: cand H algebra_simps)
  qed
qed

lemma next4HourMark_closed:
  "next4HourMark now = (now div (4 * time_Hour) + 1) * (4 * time_Hour)"
  using naive4HourMark_cases [of now] by (auto simp: next4HourMark_def Let_def)

lemma next_multiple:
  fixes now P :: int
  assumes "0 < P"
  defines "b \<equiv> (now div P + 1) * P"
  shows "now < b" and "b mod P = 0" and "b - now \<le> P"
    and "\<And>t. now < t \<Longrightarrow> t mod P = 0 \<Longrightarrow> b \<le> t"
    and "now mod P = 0 \<Longrightarrow> b = now + P"
proof -
  have n: "P * (now div P) + now mod P = now" by simp
  have m: "0 \<le> now mod P" "now mod P < P" using assms(1) by simp_all
  have b: "b = P * (now div P) + P" unfolding b_def by (simp add: algebra_simps)
  show "now < b" using n m b by linarith
  show "b mod P = 0" unfolding b_def by simp
  show "b - now \<le> P" using n m b by linarith
  show "now mod P = 0 \<Longrightarrow> b = now + P" using n b by linarith
  show "b \<le> t" if "now < t" "t mod P = 0" for t
  proof -
    from that(2) have t: "P * (t div P) = t" by auto
    have "now div P < t div P"
    proof (rule ccontr)
      assume "\<not> now div P < t div P"
      then have "t div P \<le> now div P" by simp
      then have "P * (t div P) \<le> P * (now div P)" using assms(1) by (simp add: mult_left_mono)
      with t n m that(1) show False by linarith
    qed
    then have "now div P + 1 \<le> t div P" by simp
    then have "P * (now div P + 1) \<le> P * (t div P)" using assms(1) by (simp only: mult_left_mono less_imp_le)
    with t show ?thesis unfolding b_def by (simp add: algebra_simps)
  qed
qed

lemma fields_of_Date:
  assumes "0 \<le> h" "h < 24" "0 \<le> m" "m < 60" "0 \<le> s" "s < 60" "0 \<le> ns" "ns < 1000000000"
  shows "DayOf (Date d h m s ns) = d" and "Hour (Date d h m s ns) = h"
    and "Minute (Date d h m s ns) = m"
proof -
  let ?t = "Date d h m s ns"
  have "?t = time_Minute * (60 * (24 * d + h) + m) + (s * 1000000000 + ns)"
    by (simp add: Date_def time_Hour_def time_Minute_def time_Second_def algebra_simps)
  moreover have "0 \<le> s * 1000000000 + ns" "s * 1000000000 + ns < time_Minute"
    using assms by (simp_all add: time_Minute_def time_Second_def)
  ultimately have k: "?t div time_Minute = 60 * (24 * d + h) + m"
    by (rule int_div_pos_eq)
  have q: "(60 * (24 * d + h) + m) div 60 = 24 * d + h"
    using assms by (intro int_div_pos_eq[where r = m]) simp_all
  have dd: "(24 * d + h) div 24 = d"
    using assms by (intro int_div_pos_eq[where r = h]) simp_all
  have hh: "(24 * d + h) mod 24 = h"
    using assms by (intro int_mod_pos_eq[where q = d]) simp_all
  have mm: "(60 * (24 * d + h) + m) mod 60 = m"
    using assms by (intro int_mod_pos_eq[where q = "24 * d + h"]) simp_all
  show "DayOf ?t = d" unfolding fields_of_now k q by (fact dd)
  show "Hour ?t = h" unfolding fields_of_now k q by (fact hh)
  show "Minute ?t = m" unfolding fields_of_now k by (fact mm)
qed

lemma next5MinuteMark_examples:
  "next5MinuteMark (Date d 10 7 0 0) = Date d 10 10 0 0"
  "next5MinuteMark (Date d 10 10 0 0) = Date d 10 15 0 0"
  "next5MinuteMark (Date d 10 57 30 0) = Date d 11 0 0 0"
  "naive5MinuteMark (Date d 10 57 30 0) = Date d 10 0 0 0"
  by (simp_all add: next5MinuteMark_def naive5MinuteMark_def fields_of_Date)
     (simp_all add: Date_def time_Hour_def time_Minute_def time_Second_def)

lemma next4HourMark_examples:
  "next4HourMark (Date d 8 0 0 0) = Date d 12 0 0 0"
  "next4HourMark (Date d 21 30 0 0) = Date (d + 1) 0 0 0 0"
  "next4HourMark (Date d 9 59 59 999999999) = Date d 12 0 0 0"
  by (simp_all add: next4HourMark_def naive4HourMark_def fields_of_Date)
     (simp_all add: Date_def time_Hour_def time_Minute_def time_Second_def)


lemma time_Minute_pos: "0 < 5 * time_Minute" and time_Hour_pos: "0 < 4 * time_Hour"
  by (simp_all add: time_Hour_def time_Minute_def time_Second_def)

text \<open>
  C3. For every reading \<open>now\<close> of the wall clock, the instant that
  \<open>WaitForNext5MinuteMark\<close> sleeps until is strictly after \<open>now\<close>, is a whole multiple
  of five minutes (counted from a midnight, hence from the hour), and no instant strictly
  after \<open>now\<close> that is such a multiple comes before it; the delay is the difference and
  is never zero. Whenever the naive mark (the minute wrapped from 60 to 0) is not strictly
  after \<open>now\<close>, the mark is the naive mark plus one hour, the period the wrapped minute
  runs through; and when \<open>now\<close> is itself a multiple of five minutes, the mark is one
  full interval after it. The same holds of \<open>WaitForNext4HourMark\<close> with multiples of
  four hours and a period of 24 hours. On any day, a call at 10:07:00 sleeps until
  10:10:00 and a call at 10:10:00 sleeps until 10:15:00.
\<close>

theorem wait_marks_are_the_next_boundaries:
  "(now < fst (WaitForNext5MinuteMark now)
    \<and> fst (WaitForNext5MinuteMark now) mod (5 * time_Minute) = 0
    \<and> (\<forall>t. now < t \<and> t mod (5 * time_Minute) = 0 \<longrightarrow> fst (WaitForNext5MinuteMark now) \<le> t)
    \<and> snd (WaitForNext5MinuteMark now) = fst (WaitForNext5MinuteMark now) - now
    \<and> 0 < snd (WaitForNext5MinuteMark now)
    \<and> (naive5MinuteMark now \<le> now \<longrightarrow>
          fst (WaitForNext5MinuteMark now) = naive5MinuteMark now + time_Hour)
    \<and> (now mod (5 * time_Minute) = 0 \<longrightarrow>
          fst (WaitForNext5MinuteMark now) = now + 5 * time_Minute))
   \<and> (now < fst (WaitForNext4HourMark now)
    \<and> fst (WaitForNext4HourMark now) mod (4 * time_Hour) = 0
    \<and> (\<forall>t. now < t \<and> t mod (4 * time_Hour) = 0 \<longrightarrow> fst (WaitForNext4HourMark now) \<le> t)
    \<and> snd (WaitForNext4HourMark now) = fst (WaitForNext4HourMark now) - now
    \<and> 0 < snd (WaitForNext4HourMark now)
    \<and> (naive4HourMark now \<le> now \<longrightarrow>
          fst (WaitForNext4HourMark now) = naive4HourMark now + 24 * time_Hour)
    \<and> (now mod (4 * time_Hour) = 0 \<longrightarrow>
          fst (WaitForNext4HourMark now) = now + 4 * time_Hour))
   \<and> fst (WaitForNext5MinuteMark (Date d 10 7 0 0)) = Date d 10 10 0 0
   \<and> fst (WaitForNext5MinuteMark (Date d 10 10 0 0)) = Date d 10 15 0 0"
proof -
  have w5: "fst (WaitForNext5MinuteMark x) = next5MinuteMark x"
    "snd (WaitForNext5MinuteMark x) = next5MinuteMark x - x" for x
    by (simp_all add: WaitForNext5MinuteMark_def Let_def)
  have w4: "fst (WaitForNext4HourMark x) = next4HourMark x"
    "snd (WaitForNext4HourMark x) = next4HourMark x - x" for x
    by (simp_all add: WaitForNext4HourMark_def Let_def)
  note n5 = next_multiple [OF time_Minute_pos, of now, folded next5MinuteMark_closed]
  note n4 = next_multiple [OF time_Hour_pos, of now, folded next4HourMark_closed]
  have a5: "naive5MinuteMark now \<le> now \<longrightarrow> next5MinuteMark now = naive5MinuteMark now + time_Hour"
    using naive5MinuteMark_cases [of now] by (auto simp: next5MinuteMark_def Let_def)
  have a4: "naive4HourMark now \<le> now \<longrightarrow> next4HourMark now = naive4HourMark now + 24 * time_Hour"
    using naive4HourMark_cases [of now] by (auto simp: next4HourMark_def Let_def)
  have five: "now < next5MinuteMark now \<and> next5MinuteMark now mod (5 * time_Minute) = 0
    \<and> (\<forall>t. now < t \<and> t mod (5 * time_Minute) = 0 \<longrightarrow> next5MinuteMark now \<le> t)
    \<and> 0 < next5MinuteMark now - now
    \<and> (now mod (5 * time_Minute) = 0 \<longrightarrow> next5MinuteMark now = now + 5 * time_Minute)"
    using n5(1,2,4,5) by auto
  have four: "now < next4HourMark now \<and> next4HourMark now mod (4 * time_Hour) = 0
    \<and> (\<forall>t. now < t \<and> t mod (4 * time_Hour) = 0 \<longrightarrow> next4HourMark now \<le> t)
    \<and> 0 < next4HourMark now - now
    \<and> (now mod (4 * time_Hour) = 0 \<longrightarrow> next4HourMark now = now + 4 * time_Hour)"
    using n4(1,2,4,5) by auto
  show ?thesis
    unfolding w5 w4 using five four a5 a4 next5MinuteMark_examples(1,2) [of d] by simp
qed

theorem wait_marks_witness:
  "naive5MinuteMark (Date 0 10 57 30 0) \<le> Date 0 10 57 30 0
   \<and> fst (WaitForNext5MinuteMark (Date 0 10 57 30 0)) = Date 0 11 0 0 0
   \<and> Date 0 10 57 30 0 < Date 0 11 5 0 0 \<and> Date 0 11 5 0 0 mod (5 * time_Minute) = 0
   \<and> fst (WaitForNext5MinuteMark (Date 0 10 57 30 0)) \<le> Date 0 11 5 0 0
   \<and> naive4HourMark (Date 0 21 30 0 0) \<le> Date 0 21 30 0 0
   \<and> fst (WaitForNext4HourMark (Date 0 21 30 0 0)) = Date 1 0 0 0 0
   \<and> Date 0 21 30 0 0 < Date 1 4 0 0 0 \<and> Date 1 4 0 0 0 mod (4 * time_Hour) = 0
   \<and> fst (WaitForNext4HourMark (Date 0 21 30 0 0)) \<le> Date 1 4 0 0 0
   \<and> Date 0 10 10 0 0 mod (5 * time_Minute) = 0
   \<and> fst (WaitForNext5MinuteMark (Date 0 10 10 0 0)) = Date 0 10 15 0 0
   \<and> Date 0 8 0 0 0 mod (4 * time_Hour) = 0
   \<and> fst (WaitForNext4HourMark (Date 0 8 0 0 0)) = Date 0 12 0 0 0"
proof -
  have n5: "naive5MinuteMark (Date 0 10 57 30 0) = Date 0 10 0 0 0"
    by (simp add: naive5MinuteMark_def Minute_def Hour_def DayOf_def Date_def
          time_Hour_def time_Minute_def time_Second_def)
  have n4: "naive4HourMark (Date 0 21 30 0 0) = Date 0 0 0 0 0"
    by (simp add: naive4HourMark_def Minute_def Hour_def DayOf_def Date_def
          time_Hour_def time_Minute_def time_Second_def)
  have h5: "naive5MinuteMark (Date 0 10 57 30 0) \<le> Date 0 10 57 30 0"
    unfolding n5 by (simp add: Date_def time_Hour_def time_Minute_def time_Second_def)
  have h4: "naive4HourMark (Date 0 21 30 0 0) \<le> Date 0 21 30 0 0"
    unfolding n4 by (simp add: Date_def time_Hour_def time_Minute_def time_Second_def)
  have t5: "Date 0 10 57 30 0 < Date 0 11 5 0 0 \<and> Date 0 11 5 0 0 mod (5 * time_Minute) = 0"
    by (simp add: Date_def time_Hour_def time_Minute_def time_Second_def)
  have t4: "Date 0 21 30 0 0 < Date 1 4 0 0 0 \<and> Date 1 4 0 0 0 mod (4 * time_Hour) = 0"
    by (simp add: Date_def time_Hour_def time_Minute_def time_Second_def)
  have e5: "Date 0 10 0 0 0 + time_Hour = Date 0 11 0 0 0"
    and e4: "Date 0 0 0 0 0 + 24 * time_Hour = Date 1 0 0 0 0"
    by (simp_all add: Date_def)
  note g5 = wait_marks_are_the_next_boundaries [of "Date 0 10 57 30 0" 0, THEN conjunct1]
  note g4 = wait_marks_are_the_next_boundaries [of "Date 0 21 30 0 0" 0,
              THEN conjunct2, THEN conjunct1]
  note c2 = conjunct2
  have r5: "fst (WaitForNext5MinuteMark (Date 0 10 57 30 0)) = Date 0 11 0 0 0"
    using g5 [THEN c2, THEN c2, THEN c2, THEN c2, THEN c2, THEN conjunct1, THEN mp, OF h5]
    unfolding n5 e5 .
  have r4: "fst (WaitForNext4HourMark (Date 0 21 30 0 0)) = Date 1 0 0 0 0"
    using g4 [THEN c2, THEN c2, THEN c2, THEN c2, THEN c2, THEN conjunct1, THEN mp, OF h4]
    unfolding n4 e4 .
  have b5: "Date 0 10 10 0 0 mod (5 * time_Minute) = 0"
    and b4: "Date 0 8 0 0 0 mod (4 * time_Hour) = 0"
    by (simp_all add: Date_def time_Hour_def time_Minute_def time_Second_def)
  have f5: "Date 0 10 10 0 0 + 5 * time_Minute = Date 0 10 15 0 0"
    and f4: "Date 0 8 0 0 0 + 4 * time_Hour = Date 0 12 0 0 0"
    by (simp_all add: Date_def)
  have x5: "fst (WaitForNext5MinuteMark (Date 0 10 10 0 0)) = Date 0 10 15 0 0"
    using wait_marks_are_the_next_boundaries [of "Date 0 10 10 0 0" 0, THEN conjunct1,
            THEN c2, THEN c2, THEN c2, THEN c2, THEN c2, THEN c2, THEN mp, OF b5]
    unfolding f5 .
  have x4: "fst (WaitForNext4HourMark (Date 0 8 0 0 0)) = Date 0 12 0 0 0"
    using wait_marks_are_the_next_boundaries [of "Date 0 8 0 0 0" 0, THEN c2, THEN conjunct1,
            THEN c2, THEN c2, THEN c2, THEN c2, THEN c2, THEN c2, THEN mp, OF b4]
    unfolding f4 .
  have m5: "fst (WaitForNext5MinuteMark (Date 0 10 57 30 0)) \<le> Date 0 11 5 0 0"
    by (rule g5 [THEN c2, THEN c2, THEN conjunct1, THEN spec, THEN mp, OF t5])
  have m4: "fst (WaitForNext4HourMark (Date 0 21 30 0 0)) \<le> Date 1 4 0 0 0"
    by (rule g4 [THEN c2, THEN c2, THEN conjunct1, THEN spec, THEN mp, OF t4])
  from h5 r5 t5 m5 h4 r4 t4 m4 b5 x5 b4 x4 show ?thesis
    by (intro conjI) (erule conjunct1 conjunct2 | assumption)+
qed

section \<open>Properties of the listing loop\<close>

lemma upsert_coin_attrs: 
  "Name a = Name a' \<Longrightarrow> Symbol a = Symbol a' \<Longrightarrow> MarketCap a = MarketCap a' \<Longrightarrow>
   upsert_coin k a d rows = upsert_coin k a' d rows"
  by (induction rows) auto

lemma upsert_coin_zero_key:
  "upsert_coin k \<lparr>VSTokenID = 0, Name = n, Symbol = s, MarketCap = c\<rparr> d rows
   = upsert_coin k \<lparr>VSTokenID = k, Name = n, Symbol = s, MarketCap = c\<rparr> d rows"
  by (rule upsert_coin_attrs) simp_all

lemma assert_string_ok:
  "assert_string v = (case ok_string v of Some s \<Rightarrow> Inr s | None \<Rightarrow> Inl InterfaceConversion)"
  by (cases v) (simp_all add: assert_string_def ok_string_def)

lemma saveCoin_object:
  "saveCoin L w (VObject m) =
     (case ok_string (index_map m ''vsTokenId'') of
        None \<Rightarrow> (Inl InterfaceConversion, w)
      | Some i \<Rightarrow>
        (case ParseInt i of
           None \<Rightarrow> (Inr (), logmsg LevelError ''Failed to parse VSTokenID'' w)
         | Some k \<Rightarrow>
           (case ok_string (index_map m ''marketCap'') of
              None \<Rightarrow> (Inl InterfaceConversion, w)
            | Some c \<Rightarrow>
              (case ParseFloat L c of
                 None \<Rightarrow> (Inr (), logmsg LevelError ''Failed to parse MarketCap'' w)
               | Some cap \<Rightarrow>
                 (case ok_string (index_map m ''name'') of
                    None \<Rightarrow> (Inl InterfaceConversion, w)
                  | Some n \<Rightarrow>
                    (case ok_string (index_map m ''symbol'') of
                       None \<Rightarrow> (Inl InterfaceConversion, w)
                     | Some s \<Rightarrow>
                        (Inr (), logmsg LevelDebug ''Coin info saved''
                           (w\<lparr>coins := put_row \<lparr>VSTokenID = k, Name = n, Symbol = s, MarketCap = cap\<rparr>
                                         (coins w)\<rparr>))))))))"
  by (simp add: saveCoin_def assert_map_def assert_string_ok FirstOrCreate_coin_def put_row_def
        upsert_coin_zero_key
      split: option.splits)

lemma saveCoin_not_object:
  "\<forall>m. coin \<noteq> VObject m \<Longrightarrow> saveCoin L w coin = (Inl InterfaceConversion, w)"
  by (cases coin) (auto simp: saveCoin_def assert_map_def)

lemma saveCoin_well_formed:
  assumes "entry_row L coin = Some r"
  shows "saveCoin L w coin =
         (Inr (), logmsg LevelDebug ''Coin info saved'' (w\<lparr>coins := put_row r (coins w)\<rparr>))"
proof (cases coin)
  case (VObject m)
  with assms show ?thesis
    unfolding VObject saveCoin_object
    by (auto simp: entry_row_def split: option.splits)
qed (use assms in \<open>simp_all add: entry_row_def\<close>)

lemma saveCoin_non_numeric:
  assumes "non_numeric_entry L coin"
  shows "saveCoin L w coin = (Inr (), logmsg LevelError ''Failed to parse VSTokenID'' w)
       \<or> saveCoin L w coin = (Inr (), logmsg LevelError ''Failed to parse MarketCap'' w)"
proof (cases coin)
  case (VObject m)
  with assms show ?thesis
    unfolding VObject saveCoin_object
    by (auto simp: non_numeric_entry_def split: option.splits)
qed (use assms in \<open>simp_all add: non_numeric_entry_def\<close>)

lemma saveCoin_panics_iff:
  "fst (saveCoin L w coin) = Inl InterfaceConversion \<longleftrightarrow> panicking_entry L coin"
proof (cases coin)
  case (VObject m)
  show ?thesis
    unfolding VObject saveCoin_object
    by (auto simp: panicking_entry_def split: option.splits)
qed (simp_all add: panicking_entry_def saveCoin_not_object)



lemma put_row_Nil: "put_row r [] = [r]"
  by (simp add: put_row_def)

lemma put_row_Cons:
  "put_row r (x # xs) = (if VSTokenID x = VSTokenID r then r # xs else x # put_row r xs)"
  by (cases x, cases r) (simp add: put_row_def)

lemma keys_put_row:
  "map VSTokenID (put_row r R) =
     (if VSTokenID r \<in> VSTokenID ` set R then map VSTokenID R
      else map VSTokenID R @ [VSTokenID r])"
  by (induction R) (auto simp: put_row_Nil put_row_Cons)

lemma key_set_put_row:
  "VSTokenID ` set (put_row r R) = insert (VSTokenID r) (VSTokenID ` set R)"
  by (induction R) (auto simp: put_row_Nil put_row_Cons)

lemma put_row_append:
  "VSTokenID r \<in> VSTokenID ` set S \<Longrightarrow> put_row r (S @ E) = put_row r S @ E"
  by (induction S) (auto simp: put_row_Cons)

lemma put_row_absent: "VSTokenID r \<notin> VSTokenID ` set S \<Longrightarrow> put_row r S = S @ [r]"
  by (induction S) (auto simp: put_row_Nil put_row_Cons)

lemma put_row_last: "VSTokenID r \<notin> VSTokenID ` set S \<Longrightarrow> put_row r (S @ [r]) = S @ [r]"
  by (induction S) (auto simp: put_row_Nil put_row_Cons)

lemma put_row_overwrite: "VSTokenID p = VSTokenID q \<Longrightarrow> put_row p (put_row q R) = put_row p R"
  by (induction R) (auto simp: put_row_Nil put_row_Cons)

lemma put_row_commute:
  "VSTokenID p \<noteq> VSTokenID q \<Longrightarrow> VSTokenID p \<in> VSTokenID ` set R \<Longrightarrow>
   put_row p (put_row q R) = put_row q (put_row p R)"
  by (induction R) (auto simp: put_row_Nil put_row_Cons)

lemma keys_put_rows: "VSTokenID ` set (put_rows R ps) = VSTokenID ` set R \<union> VSTokenID ` set ps"
  by (induction ps arbitrary: R) (simp_all add: key_set_put_row)

lemma put_rows_append:
  "\<forall>q\<in>set qs. VSTokenID q \<in> VSTokenID ` set S \<Longrightarrow> put_rows (S @ E) qs = put_rows S qs @ E"
proof (induction qs arbitrary: S)
  case Nil
  then show ?case by simp
next
  case (Cons q qs)
  then have "\<forall>q'\<in>set qs. VSTokenID q' \<in> VSTokenID ` set (put_row q S)"
    by (simp add: key_set_put_row)
  with Cons show ?case by (simp add: put_row_append)
qed

lemma put_row_absorbs:
  "VSTokenID p \<in> VSTokenID ` set S \<Longrightarrow>
   put_row p (put_rows (put_row p S) qs) = put_row p (put_rows S qs)"
proof (induction qs arbitrary: S)
  case Nil
  then show ?case by (simp add: put_row_overwrite)
next
  case (Cons q qs)
  show ?case
  proof (cases "VSTokenID q = VSTokenID p")
    case True
    then show ?thesis by (simp add: put_row_overwrite)
  next
    case False
    then have "put_row q (put_row p S) = put_row p (put_row q S)"
      using Cons.prems put_row_commute [of p q S] by simp
    moreover have "VSTokenID p \<in> VSTokenID ` set (put_row q S)"
      using Cons.prems by (simp add: key_set_put_row)
    ultimately show ?thesis using Cons.IH by simp
  qed
qed

lemma put_rows_idempotent: "put_rows (put_rows R ps) ps = put_rows R ps"
proof (induction ps arbitrary: R rule: rev_induct)
  case Nil
  then show ?case by simp
next
  case (snoc p qs)
  let ?S = "put_rows R qs"
  have ih: "put_rows ?S qs = ?S" by (rule snoc.IH)
  have keys: "\<forall>q\<in>set qs. VSTokenID q \<in> VSTokenID ` set ?S"
    by (simp add: keys_put_rows)
  have "put_row p (put_rows (put_row p ?S) qs) = put_row p ?S"
  proof (cases "VSTokenID p \<in> VSTokenID ` set ?S")
    case True
    then show ?thesis by (simp only: put_row_absorbs ih)
  next
    case False
    then have a: "put_row p ?S = ?S @ [p]" by (rule put_row_absent)
    have "put_rows (?S @ [p]) qs = put_rows ?S qs @ [p]"
      using keys by (rule put_rows_append)
    then have c: "put_rows (?S @ [p]) qs = ?S @ [p]" unfolding ih .
    have b: "put_row p (?S @ [p]) = ?S @ [p]" using False by (rule put_row_last)
    show ?thesis unfolding a c b ..
  qed
  then show ?case by simp
qed

lemma distinct_put_row:
  "distinct (map VSTokenID R) \<Longrightarrow> distinct (map VSTokenID (put_row r R))"
  by (simp add: keys_put_row)

lemma distinct_put_rows:
  "distinct (map VSTokenID R) \<Longrightarrow> distinct (map VSTokenID (put_rows R ps))"
  by (induction ps arbitrary: R) (simp_all add: distinct_put_row)


lemma saveCoinInfoToDB_append:
  "saveCoinInfoToDB L w (xs @ ys) =
     (case saveCoinInfoToDB L w xs of
        (Inl p, w') \<Rightarrow> (Inl p, w')
      | (Inr u, w') \<Rightarrow> saveCoinInfoToDB L w' ys)"
proof (induction xs arbitrary: w)
  case Nil
  then show ?case by simp
next
  case (Cons x xs)
  then show ?case by (simp split: prod.splits sum.splits)
qed

lemma replicate_append_Cons_same: "replicate n x @ x # ys = replicate (Suc n) x @ ys"
  by (simp add: replicate_app_Cons_same)

lemma saveCoinInfoToDB_well_formed:
  assumes "\<forall>c\<in>set xs. entry_row L c \<noteq> None"
  shows "saveCoinInfoToDB L w xs =
           (Inr None,
            w\<lparr>coins := put_rows (coins w) (map (the \<circ> entry_row L) xs),
              log := replicate (length xs) (LevelDebug, ''Coin info saved'') @ log w\<rparr>)"
  using assms
proof (induction xs arbitrary: w)
  case Nil
  then show ?case by simp
next
  case (Cons x xs)
  then obtain r where r: "entry_row L x = Some r" by auto
  have "saveCoinInfoToDB L w (x # xs) =
        saveCoinInfoToDB L (logmsg LevelDebug ''Coin info saved'' (w\<lparr>coins := put_row r (coins w)\<rparr>)) xs"
    by (simp add: saveCoin_well_formed [OF r])
  also have "\<dots> = (Inr None,
            w\<lparr>coins := put_rows (coins w) (map (the \<circ> entry_row L) (x # xs)),
              log := replicate (length (x # xs)) (LevelDebug, ''Coin info saved'') @ log w\<rparr>)"
    using Cons.prems
    by (subst Cons.IH) (simp_all add: r logmsg_def replicate_app_Cons_same)
  finally show ?case .
qed



lemma entry_rows_examples:
  "entry_row int_lib btc_entry = Some \<lparr>VSTokenID = 1, Name = ''Bitcoin'', Symbol = ''BTC'', MarketCap = 2000\<rparr>"
  "entry_row int_lib eth_entry = Some \<lparr>VSTokenID = 2, Name = ''Ethereum'', Symbol = ''ETH'', MarketCap = 400\<rparr>"
  "non_numeric_entry int_lib doge_entry"
  by (simp_all add: entry_row_def non_numeric_entry_def btc_entry_def eth_entry_def doge_entry_def
       coin_entry_def index_map_def ok_string_def int_lib_def ParseInt_def ParseUint_def digit_of_def)


lemma count_log_simps:
  "count_log lvl msg (logmsg lvl' msg' w) =
     (if lvl' = lvl \<and> msg' = msg then Suc (count_log lvl msg w) else count_log lvl msg w)"
  "count_log lvl msg (w\<lparr>coins := cs\<rparr>) = count_log lvl msg w"
  "count_log lvl msg (w\<lparr>log := replicate n e @ log w\<rparr>) =
     (if e = (lvl, msg) then n + count_log lvl msg w else count_log lvl msg w)"
  by (auto simp: count_log_def logmsg_def)

text \<open>
  C5. In a listing page in which one entry has a non-numeric \<open>vsTokenId\<close> or
  \<open>marketCap\<close> string and the other N-1 entries, before and after it, are well formed,
  \<open>saveCoinInfoToDB\<close> returns with no error and no panic; the table it leaves is the
  one that upserting the rows of the N-1 well-formed entries in their order gives, the same
  as if the malformed entry had not been in the page; it logs N-1 saved rows and one
  parse failure.
\<close>

theorem one_malformed_entry_is_skipped:
  assumes "\<forall>c\<in>set (xs @ ys). entry_row L c \<noteq> None" and "non_numeric_entry L bad"
  shows "fst (saveCoinInfoToDB L w (xs @ bad # ys)) = Inr None
    \<and> coins (snd (saveCoinInfoToDB L w (xs @ bad # ys)))
        = put_rows (coins w) (map (the \<circ> entry_row L) (xs @ ys))
    \<and> coins (snd (saveCoinInfoToDB L w (xs @ bad # ys)))
        = coins (snd (saveCoinInfoToDB L w (xs @ ys)))
    \<and> count_log LevelDebug ''Coin info saved'' (snd (saveCoinInfoToDB L w (xs @ bad # ys)))
        = count_log LevelDebug ''Coin info saved'' w + length (xs @ ys)
    \<and> count_log LevelError ''Failed to parse VSTokenID'' (snd (saveCoinInfoToDB L w (xs @ bad # ys)))
        + count_log LevelError ''Failed to parse MarketCap'' (snd (saveCoinInfoToDB L w (xs @ bad # ys)))
        = count_log LevelError ''Failed to parse VSTokenID'' w
        + count_log LevelError ''Failed to parse MarketCap'' w + 1"
proof -
  from assms(1) have wx: "\<forall>c\<in>set xs. entry_row L c \<noteq> None"
    and wy: "\<forall>c\<in>set ys. entry_row L c \<noteq> None" by auto
  define w1 where "w1 = w\<lparr>coins := put_rows (coins w) (map (the \<circ> entry_row L) xs),
              log := replicate (length xs) (LevelDebug, ''Coin info saved'') @ log w\<rparr>"
  have x: "saveCoinInfoToDB L w xs = (Inr None, w1)"
    unfolding w1_def by (rule saveCoinInfoToDB_well_formed [OF wx])
  from saveCoin_non_numeric [OF assms(2), of w1]
  obtain msg where msg: "msg = ''Failed to parse VSTokenID'' \<or> msg = ''Failed to parse MarketCap''"
    and b: "saveCoin L w1 bad = (Inr (), logmsg LevelError msg w1)" by blast
  have run: "saveCoinInfoToDB L w (xs @ bad # ys) = saveCoinInfoToDB L (logmsg LevelError msg w1) ys"
    by (simp add: saveCoinInfoToDB_append x b)
  have all: "saveCoinInfoToDB L w (xs @ ys) = saveCoinInfoToDB L w1 ys"
    by (simp add: saveCoinInfoToDB_append x)
  show ?thesis
    unfolding run all saveCoinInfoToDB_well_formed [OF wy]
    using msg by (auto simp: w1_def logmsg_def count_log_def)
qed

lemma no_panicking_entry_returns:
  "\<forall>c\<in>set xs. \<not> panicking_entry L c \<Longrightarrow> fst (saveCoinInfoToDB L w xs) = Inr None"
proof (induction xs arbitrary: w)
  case Nil
  then show ?case by simp
next
  case (Cons x xs)
  then have "fst (saveCoin L w x) \<noteq> Inl InterfaceConversion"
    by (simp add: saveCoin_panics_iff)
  then obtain w' where "saveCoin L w x = (Inr (), w')"
    by (cases "saveCoin L w x"; cases "fst (saveCoin L w x)") (auto intro: panic.exhaust)
  with Cons show ?case by simp
qed

text \<open>
  C10, amended. \<open>saveCoinInfoToDB\<close> panics exactly when some entry of the list is one on
  which an unchecked assertion fails: an entry that is not an object, or whose
  \<open>vsTokenId\<close> is absent or not a string, or whose \<open>vsTokenId\<close> parses and whose
  \<open>marketCap\<close> is absent or not a string, or whose two numeric strings parse and whose
  \<open>name\<close> or \<open>symbol\<close> is absent or not a string. At the first such entry the batch
  stops with the panic: the entries before it have been processed and those after it are
  never looked at. (An entry whose \<open>vsTokenId\<close> or \<open>marketCap\<close> string does not parse is
  skipped before its later fields are asserted, whatever they are.)
\<close>

theorem saveCoinInfoToDB_panics_iff:
  "(fst (saveCoinInfoToDB L w coinList) = Inl InterfaceConversion)
     = (\<exists>c\<in>set coinList. panicking_entry L c)
   \<and> ((\<forall>c\<in>set xs. \<not> panicking_entry L c) \<and> panicking_entry L bad \<longrightarrow>
        saveCoinInfoToDB L w (xs @ bad # ys)
          = (Inl InterfaceConversion, snd (saveCoinInfoToDB L w xs)))"
proof
  show "(fst (saveCoinInfoToDB L w coinList) = Inl InterfaceConversion)
     = (\<exists>c\<in>set coinList. panicking_entry L c)"
  proof (induction coinList arbitrary: w)
    case Nil
    then show ?case by simp
  next
    case (Cons x xs)
    show ?case
    proof (cases "panicking_entry L x")
      case True
      then have "fst (saveCoin L w x) = Inl InterfaceConversion" by (simp add: saveCoin_panics_iff)
      then show ?thesis using True by (cases "saveCoin L w x") auto
    next
      case False
      then have "fst (saveCoin L w x) \<noteq> Inl InterfaceConversion" by (simp add: saveCoin_panics_iff)
      then obtain w' where "saveCoin L w x = (Inr (), w')"
        by (cases "saveCoin L w x"; cases "fst (saveCoin L w x)") (auto intro: panic.exhaust)
      then show ?thesis using False Cons.IH [of w'] by simp
    qed
  qed
  show "(\<forall>c\<in>set xs. \<not> panicking_entry L c) \<and> panicking_entry L bad \<longrightarrow>
        saveCoinInfoToDB L w (xs @ bad # ys)
          = (Inl InterfaceConversion, snd (saveCoinInfoToDB L w xs))"
  proof
    assume a: "(\<forall>c\<in>set xs. \<not> panicking_entry L c) \<and> panicking_entry L bad"
    then have "fst (saveCoinInfoToDB L w xs) = Inr None" by (simp add: no_panicking_entry_returns)
    then obtain w1 where x: "saveCoinInfoToDB L w xs = (Inr None, w1)"
      by (cases "saveCoinInfoToDB L w xs") auto
    from a have "fst (saveCoin L w1 bad) = Inl InterfaceConversion" by (simp add: saveCoin_panics_iff)
    moreover have "snd (saveCoin L w1 bad) = w1"
      using a by (cases bad) (auto simp: saveCoin_object saveCoin_not_object panicking_entry_def
          split: option.splits)
    ultimately have "saveCoin L w1 bad = (Inl InterfaceConversion, w1)"
      by (cases "saveCoin L w1 bad") auto
    then show "saveCoinInfoToDB L w (xs @ bad # ys)
          = (Inl InterfaceConversion, snd (saveCoinInfoToDB L w xs))"
      by (simp add: saveCoinInfoToDB_append x)
  qed
qed

lemma exactly_one_row:
  "distinct (map f rows) \<Longrightarrow> k \<in> f ` set rows \<Longrightarrow> length (filter (\<lambda>r. f r = k) rows) = 1"
proof (induction rows)
  case Nil
  then show ?case by simp
next
  case (Cons r rows)
  show ?case
  proof (cases "f r = k")
    case True
    with Cons.prems have "f r \<notin> f ` set rows" by simp
    then have "\<forall>x\<in>set rows. f x \<noteq> k" unfolding True [symmetric] by (metis imageI)
    then have "filter (\<lambda>r. f r = k) rows = []"
      by (simp add: filter_empty_conv)
    with True show ?thesis by simp
  next
    case False
    with Cons show ?thesis by auto
  qed
qed

text \<open>
  C8. For a payload of well-formed entries and any starting table, \<open>saveCoinInfoToDB\<close>
  returns with no error, and running it a second time on the same payload leaves the table
  of the first run unchanged, row for row. When the starting table has at most one row
  per \<open>VSTokenID\<close> (the key is unique in the data model), so has the table after the
  run, and it has exactly one row for every \<open>VSTokenID\<close> of the payload.
\<close>

theorem listing_upsert_is_idempotent:
  assumes "\<forall>c\<in>set xs. entry_row L c \<noteq> None"
  shows "fst (saveCoinInfoToDB L w xs) = Inr None
    \<and> fst (saveCoinInfoToDB L (snd (saveCoinInfoToDB L w xs)) xs) = Inr None
    \<and> coins (snd (saveCoinInfoToDB L (snd (saveCoinInfoToDB L w xs)) xs))
        = coins (snd (saveCoinInfoToDB L w xs))
    \<and> (distinct (map VSTokenID (coins w)) \<longrightarrow>
         distinct (map VSTokenID (coins (snd (saveCoinInfoToDB L w xs))))
         \<and> (\<forall>c\<in>set xs.
               length (filter (\<lambda>r. VSTokenID r = VSTokenID (the (entry_row L c)))
                         (coins (snd (saveCoinInfoToDB L w xs)))) = 1))"
proof -
  note run = saveCoinInfoToDB_well_formed [OF assms]
  have keys: "VSTokenID (the (entry_row L c)) \<in> VSTokenID ` set (put_rows R (map (the \<circ> entry_row L) xs))"
    if "c \<in> set xs" for c R
    using that by (auto simp: keys_put_rows)
  have one: "length (filter (\<lambda>r. VSTokenID r = VSTokenID (the (entry_row L c)))
                      (put_rows (coins w) (map (the \<circ> entry_row L) xs))) = 1"
    if "distinct (map VSTokenID (coins w))" "c \<in> set xs" for c
    using that by (intro exactly_one_row distinct_put_rows keys)
  show ?thesis
    unfolding run using one
    by (simp add: put_rows_idempotent distinct_put_rows)
qed


lemmas example_defs =
  entry_row_def non_numeric_entry_def panicking_entry_def btc_entry_def eth_entry_def
  doge_entry_def nameless_entry_def unnamed_entry_def coin_entry_def index_map_def ok_string_def
  int_lib_def ParseInt_def ParseUint_def digit_of_def

text \<open>The page of Bitcoin, a Dogecoin entry with market capitalisation \<open>n/a\<close>, and Ethereum.\<close>

theorem one_malformed_entry_witness:
  "entry_row int_lib btc_entry \<noteq> None \<and> entry_row int_lib eth_entry \<noteq> None
   \<and> non_numeric_entry int_lib doge_entry
   \<and> fst (saveCoinInfoToDB int_lib world200 [btc_entry, doge_entry, eth_entry]) = Inr None
   \<and> coins (snd (saveCoinInfoToDB int_lib world200 [btc_entry, doge_entry, eth_entry]))
       = [\<lparr>VSTokenID = 1, Name = ''Bitcoin'', Symbol = ''BTC'', MarketCap = 2000\<rparr>,
          \<lparr>VSTokenID = 2, Name = ''Ethereum'', Symbol = ''ETH'', MarketCap = 400\<rparr>]
   \<and> count_log LevelDebug ''Coin info saved''
         (snd (saveCoinInfoToDB int_lib world200 [btc_entry, doge_entry, eth_entry])) = 2
   \<and> count_log LevelError ''Failed to parse VSTokenID''
         (snd (saveCoinInfoToDB int_lib world200 [btc_entry, doge_entry, eth_entry]))
       + count_log LevelError ''Failed to parse MarketCap''
         (snd (saveCoinInfoToDB int_lib world200 [btc_entry, doge_entry, eth_entry])) = 1"
proof -
  have b: "entry_row int_lib btc_entry
             = Some \<lparr>VSTokenID = 1, Name = ''Bitcoin'', Symbol = ''BTC'', MarketCap = 2000\<rparr>"
    and e: "entry_row int_lib eth_entry
             = Some \<lparr>VSTokenID = 2, Name = ''Ethereum'', Symbol = ''ETH'', MarketCap = 400\<rparr>"
    and d: "non_numeric_entry int_lib doge_entry"
    by (simp_all add: example_defs)
  have wf: "\<forall>c\<in>set ([btc_entry] @ [eth_entry]). entry_row int_lib c \<noteq> None"
    by (simp add: b e)
  have w: "coins world200 = []" "count_log lvl msg world200 = 0" for lvl msg
    by (simp_all add: world200_def count_log_def)
  from one_malformed_entry_is_skipped [OF wf d, of world200]
  show ?thesis
    by (simp add: b e d w put_row_Nil put_row_Cons)
qed

text \<open>A payload that names Bitcoin twice, on the empty table.\<close>

theorem listing_upsert_witness:
  "entry_row int_lib btc_entry \<noteq> None \<and> entry_row int_lib eth_entry \<noteq> None
   \<and> distinct (map VSTokenID (coins world200))
   \<and> fst (saveCoinInfoToDB int_lib world200 [btc_entry, eth_entry, btc_entry]) = Inr None
   \<and> coins (snd (saveCoinInfoToDB int_lib
               (snd (saveCoinInfoToDB int_lib world200 [btc_entry, eth_entry, btc_entry]))
               [btc_entry, eth_entry, btc_entry]))
       = coins (snd (saveCoinInfoToDB int_lib world200 [btc_entry, eth_entry, btc_entry]))
   \<and> length (filter (\<lambda>r. VSTokenID r = 1)
         (coins (snd (saveCoinInfoToDB int_lib world200 [btc_entry, eth_entry, btc_entry])))) = 1
   \<and> length (filter (\<lambda>r. VSTokenID r = 2)
         (coins (snd (saveCoinInfoToDB int_lib world200 [btc_entry, eth_entry, btc_entry])))) = 1"
proof -
  have b: "entry_row int_lib btc_entry
             = Some \<lparr>VSTokenID = 1, Name = ''Bitcoin'', Symbol = ''BTC'', MarketCap = 2000\<rparr>"
    and e: "entry_row int_lib eth_entry
             = Some \<lparr>VSTokenID = 2, Name = ''Ethereum'', Symbol = ''ETH'', MarketCap = 400\<rparr>"
    by (simp_all add: example_defs)
  have wf: "\<forall>c\<in>set [btc_entry, eth_entry, btc_entry]. entry_row int_lib c \<noteq> None"
    by (simp add: b e)
  have w: "distinct (map VSTokenID (coins world200))"
    by (simp add: world200_def)
  from listing_upsert_is_idempotent [OF wf, of world200] w
  show ?thesis
    by (simp add: b e)
qed

text \<open>Bitcoin, an entry with no name whose numbers parse, and Ethereum: only Bitcoin is stored.\<close>

theorem saveCoinInfoToDB_panics_witness:
  "\<not> panicking_entry int_lib btc_entry \<and> panicking_entry int_lib unnamed_entry
   \<and> saveCoinInfoToDB int_lib world200 [btc_entry, unnamed_entry, eth_entry]
       = (Inl InterfaceConversion, snd (saveCoinInfoToDB int_lib world200 [btc_entry]))
   \<and> map VSTokenID
        (coins (snd (saveCoinInfoToDB int_lib world200 [btc_entry, unnamed_entry, eth_entry])))
       = [1]"
proof -
  have b: "\<not> panicking_entry int_lib btc_entry" and u: "panicking_entry int_lib unnamed_entry"
    by (simp_all add: example_defs)
  have r: "entry_row int_lib btc_entry
             = Some \<lparr>VSTokenID = 1, Name = ''Bitcoin'', Symbol = ''BTC'', MarketCap = 2000\<rparr>"
    by (simp add: example_defs)
  have one: "coins (snd (saveCoinInfoToDB int_lib world200 [btc_entry]))
             = [\<lparr>VSTokenID = 1, Name = ''Bitcoin'', Symbol = ''BTC'', MarketCap = 2000\<rparr>]"
    by (simp add: saveCoin_well_formed [OF r] logmsg_def world200_def put_row_Nil)
  from saveCoinInfoToDB_panics_iff [of int_lib world200 "[]" "[btc_entry]" unnamed_entry "[eth_entry]",
         THEN conjunct2] b u
  have "saveCoinInfoToDB int_lib world200 [btc_entry, unnamed_entry, eth_entry]
       = (Inl InterfaceConversion, snd (saveCoinInfoToDB int_lib world200 [btc_entry]))"
    by simp
  with b u one show ?thesis by simp
qed

text \<open>
  C10, as stated, fails: \<open>nameless_entry\<close> has no \<open>name\<close> field, and its \<open>vsTokenId\<close>
  is not a number. \<open>saveCoinInfoToDB\<close> does not panic on it: it logs the parse failure,
  skips the entry and returns.
\<close>

theorem unparsable_entry_without_name_is_skipped:
  "nameless_entry = VObject [(''vsTokenId'', VString ''abc''), (''symbol'', VString ''X''),
                             (''marketCap'', VString ''1'')]
   \<and> index_map [(''vsTokenId'', VString ''abc''), (''symbol'', VString ''X''),
                 (''marketCap'', VString ''1'')] ''name'' = (VNil :: int val)
   \<and> saveCoinInfoToDB int_lib world200 [nameless_entry]
       = (Inr None, logmsg LevelError ''Failed to parse VSTokenID'' world200)"
  by (simp add: example_defs saveCoin_object)

section \<open>Properties of the field extraction\<close>


lemma coercion_examples:
  "getInt int_lib (VString ''42'') = 42"
  "getInt int_lib (VString ''-7'') = -7"
  "getInt int_lib (VString ''4x'') = 0"
  "getInt int_lib (VString ''9223372036854775808'') = 0"
  "getInt int_lib (VString ''-9223372036854775808'') = -9223372036854775808"
  "getInt int_lib (VArray []) = 0"
  "getBool (VString ''TRUE'' :: int val) = True"
  "getBool (VString ''yes'' :: int val) = False"
  "getString int_lib VNil = []"
  "getFloat64 int_lib (VBool True) = 0"
  by (simp_all add: getInt_def getBool_def getString_def getFloat64_def ok_float64_def ok_int_def
        ok_string_def ok_bool_def Atoi_def ParseInt_def ParseUint_def digit_of_def ParseBool_def
        int_lib_def)

lemma FormatInt_examples: "FormatInt 1 = ''1''" "FormatInt 2 = ''2''" "FormatInt (-305) = ''-305''"
  "FormatInt 0 = ''0''"
  by (simp_all add: FormatInt_def format_nat.simps)


section \<open>Properties of the listing cycle\<close>

lemma Login_frame:
  "coins (snd (Login w)) = coins w" "flow_requests (snd (Login w)) = flow_requests w"
  "logins (snd (Login w)) = Suc (logins w)"
  by (simp_all add: Login_def logmsg_def Let_def split: exchange.splits option.splits)

lemma snd_GetTokens: "snd (GetTokens w) = snd (Login w)"
  by (simp add: GetTokens_def split: prod.splits sum.splits)

lemma GetTokens_frame:
  "coins (snd (GetTokens w)) = coins w" "flow_requests (snd (GetTokens w)) = flow_requests w"
  by (simp_all add: snd_GetTokens Login_frame)

lemma QueryCoins_frame: "coins (snd (QueryCoins w tok)) = coins w"
  by (simp add: QueryCoins_def logmsg_def Let_def split: exchange.splits option.splits)

lemma QueryCoins_success:
  "QueryCoins w tok = (Inr resp, w') \<Longrightarrow>
     coin_net w (length (coin_queries w)) tok = Reply 200 (Some resp) \<and> Code resp = 200"
  by (auto simp: QueryCoins_def Let_def split: exchange.splits option.splits if_splits)

lemma QueryCoins_failure:
  "(\<forall>resp. coin_net w (length (coin_queries w)) tok = Reply 200 (Some resp) \<longrightarrow> Code resp \<noteq> 200)
   \<Longrightarrow> \<exists>e. fst (QueryCoins w tok) = Inl e"
  by (auto simp: QueryCoins_def Let_def split: exchange.splits option.splits)

text \<open>The batch-level errors that the cycle handles: it logs, returns and leaves the table.\<close>

lemma processCoinInfoTask_login_failure:
  assumes "fst (GetTokens (logmsg LevelInfo ''Processing coin info task'' w)) = Inl e"
  shows "fst (processCoinInfoTask L w) = Inr ()"
    and "coins (snd (processCoinInfoTask L w)) = coins w"
    and "hd (log (snd (processCoinInfoTask L w))) = (LevelError, ''Failed to get tokens for coin info task'')"
  using assms GetTokens_frame(1) [of "logmsg LevelInfo ''Processing coin info task'' w"]
  by (auto simp: processCoinInfoTask_def logmsg_def split: prod.splits sum.splits)

lemma processCoinInfoTask_query_failure:
  assumes "GetTokens (logmsg LevelInfo ''Processing coin info task'' w) = (Inr tp, w1)"
    and "fst (QueryCoins w1 (AccountToken tp)) = Inl e"
  shows "fst (processCoinInfoTask L w) = Inr ()"
    and "coins (snd (processCoinInfoTask L w)) = coins w"
    and "hd (log (snd (processCoinInfoTask L w))) = (LevelError, ''Coin query failed'')"
  using assms GetTokens_frame(1) [of "logmsg LevelInfo ''Processing coin info task'' w"]
    QueryCoins_frame [of w1 "AccountToken tp"]
  by (auto simp: processCoinInfoTask_def logmsg_def split: prod.splits sum.splits)

lemma processCoinInfoTask_data_not_object:
  assumes "GetTokens (logmsg LevelInfo ''Processing coin info task'' w) = (Inr tp, w1)"
    and "QueryCoins w1 (AccountToken tp) = (Inr resp, w2)"
    and "Data resp \<noteq> VNil" and "\<forall>m. Data resp \<noteq> VObject m"
  shows "fst (processCoinInfoTask L w) = Inr ()"
    and "coins (snd (processCoinInfoTask L w)) = coins w"
    and "hd (log (snd (processCoinInfoTask L w))) = (LevelError, ''Failed to unmarshal coin data'')"
proof -
  have c: "Code resp = 200" using QueryCoins_success [OF assms(2)] by simp
  have u: "json_Unmarshal_map (Data resp) = Inl UnmarshalDataFailed"
    using assms(3,4) by (cases "Data resp") (auto simp: json_Unmarshal_map_def)
  have k: "coins w2 = coins w"
    using GetTokens_frame(1) [of "logmsg LevelInfo ''Processing coin info task'' w"]
      QueryCoins_frame [of w1 "AccountToken tp"] assms(1,2) by (simp add: logmsg_def)
  show "fst (processCoinInfoTask L w) = Inr ()"
    and "coins (snd (processCoinInfoTask L w)) = coins w"
    and "hd (log (snd (processCoinInfoTask L w))) = (LevelError, ''Failed to unmarshal coin data'')"
    using assms(1,2) c u k
    by (simp_all add: processCoinInfoTask_def json_Marshal_def logmsg_def Let_def)
qed

text \<open>The batch-level error that it does not handle: data with no array under \<open>list\<close>.\<close>

lemma processCoinInfoTask_missing_list:
  assumes "GetTokens (logmsg LevelInfo ''Processing coin info task'' w) = (Inr tp, w1)"
    and "QueryCoins w1 (AccountToken tp) = (Inr resp, w2)"
    and "Data resp = VNil \<or> (\<exists>m. Data resp = VObject m \<and> (\<forall>xs. index_map m ''list'' \<noteq> VArray xs))"
  shows "fst (processCoinInfoTask L w) = Inl InterfaceConversion"
    and "coins (snd (processCoinInfoTask L w)) = coins w"
proof -
  have c: "Code resp = 200" using QueryCoins_success [OF assms(2)] by simp
  have k: "coins w2 = coins w"
    using GetTokens_frame(1) [of "logmsg LevelInfo ''Processing coin info task'' w"]
      QueryCoins_frame [of w1 "AccountToken tp"] assms(1,2) by (simp add: logmsg_def)
  from assms(3) obtain m where u: "json_Unmarshal_map (Data resp) = Inr m"
    and a: "assert_slice (index_map m ''list'') = Inl InterfaceConversion"
  proof
    assume "Data resp = VNil"
    then have "json_Unmarshal_map (Data resp) = Inr []"
      "assert_slice (index_map [] ''list'' :: 'a val) = Inl InterfaceConversion"
      by (simp_all add: json_Unmarshal_map_def assert_slice_def index_map_def)
    then show ?thesis by (rule that)
  next
    assume "\<exists>m. Data resp = VObject m \<and> (\<forall>xs. index_map m ''list'' \<noteq> VArray xs)"
    then obtain m where m: "Data resp = VObject m" "\<forall>xs. index_map m ''list'' \<noteq> VArray xs" by blast
    have "json_Unmarshal_map (Data resp) = Inr m" by (simp add: m json_Unmarshal_map_def)
    moreover have "assert_slice (index_map m ''list'') = Inl InterfaceConversion"
      using m(2) by (cases "index_map m ''list''") (auto simp: assert_slice_def)
    ultimately show ?thesis by (rule that)
  qed
  show "fst (processCoinInfoTask L w) = Inl InterfaceConversion"
    and "coins (snd (processCoinInfoTask L w)) = coins w"
    using assms(1,2) c u a k
    by (simp_all add: processCoinInfoTask_def json_Marshal_def logmsg_def Let_def)
qed

text \<open>
  C6, at an input on which the code departs from it: the login succeeds, and the listing
  endpoint answers with status 200, business code 200 and a null \<open>data\<close>. The cycle
  does not log and return: the unchecked assertion on \<open>coinData["list"]\<close> panics. No
  upsert has taken place. \<open>GetCoinData\<close>, which the cycle does not call, answers the
  same envelope with the error for empty data. (By the lemmas above the cycle handles a
  failed login, a failed query and data of another shape as the claim says, and panics on
  every data that has no array under \<open>list\<close>.)
\<close>

theorem listing_cycle_on_null_data_panics:
  "coin_net null_data_world 0 ''new'' = Reply 200 (Some null_data_response)
   \<and> Code null_data_response = 200 \<and> Data null_data_response = VNil
   \<and> fst (processCoinInfoTask int_lib null_data_world) = Inl InterfaceConversion
   \<and> coins (snd (processCoinInfoTask int_lib null_data_world)) = []
   \<and> GetCoinData decode null_data_response = Inl EmptyData"
  by (simp add: processCoinInfoTask_def null_data_world_def null_data_response_def world200_def
        GetTokens_def Login_def login_ok_def QueryCoins_def logmsg_def Let_def NewTokenPair_def
        json_Marshal_def json_Unmarshal_map_def assert_slice_def index_map_def GetCoinData_def)


text \<open>
  The scenario of a whole cycle: the login succeeds and the page has two valid entries
  and one with a non-numeric market capitalisation. The cycle returns, two rows are
  stored, and one parse failure is logged.
\<close>

lemma listing_cycle_with_one_malformed_entry:
  "fst (processCoinInfoTask int_lib three_entry_world) = Inr ()
   \<and> coins (snd (processCoinInfoTask int_lib three_entry_world))
       = [\<lparr>VSTokenID = 1, Name = ''Bitcoin'', Symbol = ''BTC'', MarketCap = 2000\<rparr>,
          \<lparr>VSTokenID = 2, Name = ''Ethereum'', Symbol = ''ETH'', MarketCap = 400\<rparr>]
   \<and> count_log LevelError ''Failed to parse MarketCap''
         (snd (processCoinInfoTask int_lib three_entry_world)) = 1
   \<and> count_log LevelDebug ''Coin info saved''
         (snd (processCoinInfoTask int_lib three_entry_world)) = 2
   \<and> hd (log (snd (processCoinInfoTask int_lib three_entry_world)))
       = (LevelInfo, ''Coin info task completed successfully'')"
proof -
  have b: "entry_row int_lib btc_entry
             = Some \<lparr>VSTokenID = 1, Name = ''Bitcoin'', Symbol = ''BTC'', MarketCap = 2000\<rparr>"
    and e: "entry_row int_lib eth_entry
             = Some \<lparr>VSTokenID = 2, Name = ''Ethereum'', Symbol = ''ETH'', MarketCap = 400\<rparr>"
    by (simp_all add: example_defs)
  have d: "saveCoin int_lib w doge_entry = (Inr (), logmsg LevelError ''Failed to parse MarketCap'' w)"
    for w
    by (simp add: doge_entry_def coin_entry_def saveCoin_object index_map_def ok_string_def
          int_lib_def ParseInt_def ParseUint_def digit_of_def)
  show ?thesis
    by (simp add: processCoinInfoTask_def three_entry_world_def world200_def GetTokens_def
          Login_def login_ok_def NewTokenPair_def QueryCoins_def json_Marshal_def
          json_Unmarshal_map_def assert_slice_def index_map_def Let_def
          saveCoin_well_formed [OF b] saveCoin_well_formed [OF e] d
          logmsg_def count_log_def put_row_Nil put_row_Cons)
qed

section \<open>Properties of the fund-flow cycle\<close>

text \<open>The loop never assigns the variable, whatever the validator returns.\<close>

lemma queryAndSaveTradeInflow_with_keeps_token:
  "fst (snd (queryAndSaveTradeInflow_with validate L w tok vsTokenID)) = tok"
  by (simp add: queryAndSaveTradeInflow_with_def Let_def split: prod.splits sum.splits)

lemma loop_with_keeps_token:
  "fst (snd (processTradeInflow_loop_with validate L w n tok ids)) = tok"
proof (induction ids arbitrary: w n)
  case Nil
  then show ?case by simp
next
  case (Cons vsTokenID ids)
  obtain res tok' w' where q: "queryAndSaveTradeInflow_with validate L w tok vsTokenID = (res, tok', w')"
    by (cases "queryAndSaveTradeInflow_with validate L w tok vsTokenID") auto
  with queryAndSaveTradeInflow_with_keeps_token [of validate L w tok vsTokenID]
  have "tok' = tok" by simp
  with q Cons.IH show ?case
    by (simp split: sum.splits option.splits)
qed

lemma sends_only_refl: "sends_only tok w w"
  by (simp add: sends_only_def)

lemma sends_only_trans: "sends_only tok w w' \<Longrightarrow> sends_only tok w' w'' \<Longrightarrow> sends_only tok w w''"
  by (auto simp: sends_only_def)

lemma sends_only_logmsg: "sends_only tok w w' \<Longrightarrow> sends_only tok w (logmsg lvl msg w')"
  by (simp add: sends_only_def logmsg_def)

lemma sends_only_logmsg_left: "sends_only tok (logmsg lvl msg w) w' \<Longrightarrow> sends_only tok w w'"
  by (simp add: sends_only_def logmsg_def)

lemma GetTradeInflow_sends_only: "sends_only tok w (snd (GetTradeInflow w tok kw))"
  by (simp add: GetTradeInflow_def GetTradeInflow_with_def ValidateAndRefreshToken_def IsValid_def
        sends_only_def logmsg_def Let_def split: exchange.splits option.splits)

lemma saveTrade_sends_only: "sends_only tok w (snd (saveTrade L w symbol trade))"
  by (simp add: saveTrade_def FirstOrCreate_flow_def sends_only_def logmsg_def Let_def
           split: sum.splits)

lemma saveTradeInflowToDB_sends_only:
  "sends_only tok w (snd (saveTradeInflowToDB L w tradeList symbol))"
proof (induction tradeList arbitrary: w)
  case Nil
  then show ?case by (simp add: sends_only_refl)
next
  case (Cons trade tradeList)
  obtain r w' where s: "saveTrade L w symbol trade = (r, w')"
    by (cases "saveTrade L w symbol trade") auto
  with saveTrade_sends_only [of tok w L symbol trade] have "sends_only tok w w'" by simp
  with s Cons.IH [of w'] show ?case
    by (auto split: sum.splits intro: sends_only_trans)
qed

lemma queryAndSaveTradeInflow_sends_only:
  "sends_only tok w (snd (snd (queryAndSaveTradeInflow L w tok vsTokenID)))"
proof -
  obtain r w1 where g: "GetTradeInflow_with ValidateAndRefreshToken w tok (FormatInt vsTokenID) = (r, w1)"
    by (cases "GetTradeInflow_with ValidateAndRefreshToken w tok (FormatInt vsTokenID)") auto
  with GetTradeInflow_sends_only [of tok w "FormatInt vsTokenID"]
  have 1: "sends_only tok w w1" by (simp add: GetTradeInflow_def)
  have 2: "sends_only tok w b"
    if "saveTradeInflowToDB L (logmsg l1 m1 (logmsg l2 m2 w1)) xs sym = (a, b)"
    for l1 m1 l2 m2 xs sym a b
    using saveTradeInflowToDB_sends_only [of tok "logmsg l1 m1 (logmsg l2 m2 w1)" L xs sym] 1 that
    by (auto intro: sends_only_trans sends_only_logmsg)
  show ?thesis
    using g 1 2
    by (auto simp: queryAndSaveTradeInflow_def queryAndSaveTradeInflow_with_def Let_def
             split: sum.splits prod.splits intro!: sends_only_logmsg)
qed

lemma loop_sends_only:
  "sends_only tok w (snd (snd (processTradeInflow_loop L w n tok ids)))"
proof (induction ids arbitrary: w n)
  case Nil
  then show ?case by (simp add: processTradeInflow_loop_def sends_only_refl)
next
  case (Cons vsTokenID ids)
  obtain res tok' w' where q: "queryAndSaveTradeInflow_with ValidateAndRefreshToken L w tok vsTokenID = (res, tok', w')"
    by (cases "queryAndSaveTradeInflow_with ValidateAndRefreshToken L w tok vsTokenID") auto
  with queryAndSaveTradeInflow_with_keeps_token [of ValidateAndRefreshToken L w tok vsTokenID]
  have t: "tok' = tok" by simp
  from q queryAndSaveTradeInflow_sends_only [of tok w L vsTokenID]
  have s: "sends_only tok w w'" by (simp add: queryAndSaveTradeInflow_def)
  have a: "sends_only tok w (snd (snd (processTradeInflow_loop_with ValidateAndRefreshToken L w' m tok ids)))" for m
    using Cons.IH [of w' m] s by (auto simp: processTradeInflow_loop_def intro: sends_only_trans)
  have b: "sends_only tok w (snd (snd (processTradeInflow_loop_with ValidateAndRefreshToken L
              (logmsg lvl msg w') m tok ids)))" for m lvl msg
    using Cons.IH [of "logmsg lvl msg w'" m] s
    by (auto simp: processTradeInflow_loop_def intro: sends_only_trans sends_only_logmsg)
  show ?case
    using q t s a b
    by (simp add: processTradeInflow_loop_def split: sum.splits option.splits)
qed

text \<open>
  In every world and for every list of assets, the variable \<open>currentToken\<close> keeps the
  token the cycle was started with, no login takes place during the cycle, and every
  request the cycle sends carries that token.
\<close>

lemma cycle_keeps_its_first_token:
  "fst (snd (processTradeInflow_loop L w n accessToken ids)) = accessToken
   \<and> logins (snd (snd (processTradeInflow_loop L w n accessToken ids))) = logins w
   \<and> logins (snd (processTradeInflow L w accessToken)) = logins w
   \<and> (\<exists>new. flow_requests (snd (processTradeInflow L w accessToken)) = new @ flow_requests w
             \<and> fst ` set new \<subseteq> {accessToken})"
proof -
  let ?w1 = "logmsg LevelInfo ''Found VSTokenIDs in database''
               (logmsg LevelInfo ''Processing trade inflow data'' w)"
  have "sends_only accessToken ?w1
          (snd (snd (processTradeInflow_loop L ?w1 0 accessToken (map VSTokenID (coins w)))))"
    by (rule loop_sends_only)
  then have "sends_only accessToken w (snd (processTradeInflow L w accessToken))"
    by (auto simp: processTradeInflow_def processTradeInflow_with_def getVSTokenIDsFromDB_def
          processTradeInflow_loop_def Let_def logmsg_def sends_only_def
        split: prod.splits sum.splits)
  moreover have "sends_only accessToken w (snd (snd (processTradeInflow_loop L w n accessToken ids)))"
    by (rule loop_sends_only)
  ultimately show ?thesis
    by (auto simp: sends_only_def processTradeInflow_loop_def loop_with_keeps_token)
qed


lemmas cycle_defs =
  processTradeInflow_def processTradeInflow_with_def getVSTokenIDsFromDB_def two_asset_world_def
  world200_def queryAndSaveTradeInflow_with_def GetTradeInflow_with_def json_Marshal_def
  json_Unmarshal_map_def index_map_def logmsg_def Let_def FormatInt_examples

text \<open>
  A cycle over the assets 1 and 2 that is started with the token \<open>T0\<close>: both requests
  carry \<open>T0\<close> and no login takes place. No run of the loop meets a token that
  \<open>ValidateAndRefreshToken\<close> finds expired, so what the loop would do after such a
  finding cannot be observed on it.
\<close>

lemma two_asset_cycle_sends_the_first_token:
  "map VSTokenID (coins two_asset_world) = [1, 2]
   \<and> fst (processTradeInflow int_lib two_asset_world ''T0'') = Inr ()
   \<and> flow_requests (snd (processTradeInflow int_lib two_asset_world ''T0''))
       = [(''T0'', ''2''), (''T0'', ''1'')]
   \<and> logins (snd (processTradeInflow int_lib two_asset_world ''T0'')) = 0"
  by (simp add: cycle_defs ValidateAndRefreshToken_def IsValid_def)

text \<open>
  The same cycle with a validator that does find \<open>T0\<close> expired and no other token, which
  is not the validator of the repository: the loop hands it \<open>T0\<close> again for the second
  asset, so it logs in once per asset, and the second request carries the token of the
  second login.
\<close>

lemma two_asset_cycle_with_a_validator_that_refreshes:
  "fst (processTradeInflow_with (expiry_validator ''T0'') int_lib two_asset_world ''T0'') = Inr ()
   \<and> flow_requests
         (snd (processTradeInflow_with (expiry_validator ''T0'') int_lib two_asset_world ''T0''))
       = [(''T2'', ''2''), (''T1'', ''1'')]
   \<and> logins
         (snd (processTradeInflow_with (expiry_validator ''T0'') int_lib two_asset_world ''T0''))
       = 2"
  by (simp add: cycle_defs expiry_validator_def relogin_validator_def GetTokens_def Login_def
        login_ok_def NewTokenPair_def)

end
